theory Spec2Isabelle
  imports Complex_Main "HOL-Library.Word" "HOL-Library.Sublist"
begin

section \<open>JavaScript values and strings\<close>

text \<open>
  A JavaScript string is a sequence of UTF-16 code units; the regular expressions of
  \<^verbatim>\<open>formatMessage\<close> carry no \<^verbatim>\<open>u\<close> flag and therefore work on code units.
  \<open>js\<close> embeds an ASCII literal.
\<close>

type_synonym code_unit = "16 word"
type_synonym jsstring = "code_unit list"

definition js :: "string \<Rightarrow> jsstring" where
  "js s = map of_char s"

text \<open>
  The values the script stores and inspects: whatever \<^verbatim>\<open>res.json()\<close> delivers, and
  \<^verbatim>\<open>undefined\<close> for an absent property. An object is the list of its own properties;
  \<open>map_of\<close> reads it.
\<close>

datatype jsval =
    Undefined
  | Null
  | Bool bool
  | Num real
  | Str jsstring
  | Arr "jsval list"
  | Obj "(jsstring \<times> jsval) list"

datatype js_error = TypeError

text \<open>ToBoolean, as used by \<^verbatim>\<open>if (data.lang)\<close> and \<^verbatim>\<open>data.hints || {}\<close>.\<close>

fun truthy :: "jsval \<Rightarrow> bool" where
  "truthy Undefined = False"
| "truthy Null = False"
| "truthy (Bool b) = b"
| "truthy (Num x) = (x \<noteq> 0)"
| "truthy (Str s) = (s \<noteq> [])"
| "truthy (Arr xs) = True"
| "truthy (Obj kvs) = True"

text \<open>
  Property access \<^verbatim>\<open>data.k\<close> for the four names the script reads (\<^verbatim>\<open>response\<close>,
  \<^verbatim>\<open>state\<close>, \<^verbatim>\<open>lang\<close>, \<^verbatim>\<open>hints\<close>): a TypeError on \<^verbatim>\<open>null\<close> and \<^verbatim>\<open>undefined\<close>, the own
  property of an object, and \<^verbatim>\<open>undefined\<close> on anything else (no primitive, array or
  prototype has a property of one of these names).
\<close>

fun get :: "jsval \<Rightarrow> jsstring \<Rightarrow> js_error + jsval" where
  "get Undefined k = Inl TypeError"
| "get Null k = Inl TypeError"
| "get (Obj kvs) k = Inr (case map_of kvs k of None \<Rightarrow> Undefined | Some v \<Rightarrow> v)"
| "get v k = Inr Undefined"

text \<open>
  What the script takes from the browser it runs in: how a number is printed
  (\<^verbatim>\<open>Number::toString\<close>), and what the HTML parser makes of a bubble. \<open>indicator_in h k\<close>
  tells whether the tree built from the \<^verbatim>\<open>innerHTML\<close> string \<open>h\<close> still holds an element
  with id \<^verbatim>\<open>typingIndicator\<close> after \<open>k\<close> such elements have been removed from it in
  document order. \<^verbatim>\<open>formatMessage\<close> escapes \<^verbatim>\<open>&\<close>, \<^verbatim>\<open><\<close> and \<^verbatim>\<open>>\<close> but no quotes, so the
  link rule can put attributes of the text into its \<^verbatim>\<open><a>\<close> tag.
\<close>

record platform =
  number_string :: "real \<Rightarrow> jsstring"
  indicator_in :: "jsstring \<Rightarrow> nat \<Rightarrow> bool"

text \<open>\<^verbatim>\<open>Array.prototype.join\<close> with the default separator.\<close>

fun join_strings :: "jsstring list \<Rightarrow> jsstring" where
  "join_strings [] = []"
| "join_strings [s] = s"
| "join_strings (s # t # ss) = s @ js '','' @ join_strings (t # ss)"

text \<open>
  ToString, as applied by a template literal, by a computed property key and by the
  setter of \<^verbatim>\<open>textContent\<close>. An object born from JSON has no callable property of its
  own: when it has an own \<^verbatim>\<open>toString\<close>, neither that nor \<^verbatim>\<open>valueOf\<close> yields a primitive
  and the conversion throws; otherwise \<^verbatim>\<open>Object.prototype.toString\<close> answers. An array
  joins the conversions of its elements, \<^verbatim>\<open>null\<close> and \<^verbatim>\<open>undefined\<close> counting as empty.
\<close>

fun to_string :: "platform \<Rightarrow> jsval \<Rightarrow> js_error + jsstring" where
  "to_string b Undefined = Inr (js ''undefined'')"
| "to_string b Null = Inr (js ''null'')"
| "to_string b (Bool x) = Inr (if x then js ''true'' else js ''false'')"
| "to_string b (Num x) = Inr (number_string b x)"
| "to_string b (Str s) = Inr s"
| "to_string b (Obj kvs) =
     (if map_of kvs (js ''toString'') = None then Inr (js ''[object Object]'')
      else Inl TypeError)"
| "to_string b (Arr xs) =
     (let parts = map (\<lambda>x. if x = Undefined \<or> x = Null then Inr [] else to_string b x) xs
      in if list_ex isl parts then Inl TypeError else Inr (join_strings (map projr parts)))"

text \<open>
  An array index as a property key: a decimal numeral without leading zero.
\<close>

definition digit_value :: "code_unit \<Rightarrow> nat option" where
  "digit_value c = (if 0x30 \<le> c \<and> c \<le> 0x39 then Some (unat c - 48) else None)"

fun decimal :: "nat \<Rightarrow> jsstring \<Rightarrow> nat option" where
  "decimal n [] = Some n"
| "decimal n (c # cs) =
     (case digit_value c of None \<Rightarrow> None | Some d \<Rightarrow> decimal (10 * n + d) cs)"

definition array_index :: "jsstring \<Rightarrow> nat option" where
  "array_index k =
     (case k of
        [] \<Rightarrow> None
      | c # cs \<Rightarrow> if c = 0x30 \<and> cs \<noteq> [] then None else decimal 0 k)"

text \<open>
  The own property \<^verbatim>\<open>v[k]\<close> that came with the JSON, if there is one: a member of an
  object or an element of an array. Every other property (of a prototype, of a string,
  the length of an array) is a value that ToString converts without throwing.
\<close>

fun own_property :: "jsval \<Rightarrow> jsstring \<Rightarrow> jsval option" where
  "own_property (Obj kvs) k = map_of kvs k"
| "own_property (Arr xs) k =
     (case array_index k of
        None \<Rightarrow> None
      | Some i \<Rightarrow> if i < length xs then Some (xs ! i) else None)"
| "own_property v k = None"

section \<open>formatMessage\<close>

definition amp :: code_unit where "amp = 0x26"
definition lt :: code_unit where "lt = 0x3C"
definition gt :: code_unit where "gt = 0x3E"
definition underscore :: code_unit where "underscore = 0x5F"
definition backtick :: code_unit where "backtick = 0x60"
definition lbracket :: code_unit where "lbracket = 0x5B"
definition rbracket :: code_unit where "rbracket = 0x5D"
definition lparen :: code_unit where "lparen = 0x28"
definition rparen :: code_unit where "rparen = 0x29"
definition dquote :: code_unit where "dquote = 0x22"

text \<open>U+2550, the double horizontal line of the separator rule.\<close>

definition box_char :: code_unit where "box_char = 0x2550"

text \<open>The code units that \<^verbatim>\<open>.\<close> does not match.\<close>

definition is_line_terminator :: "code_unit \<Rightarrow> bool" where
  "is_line_terminator c = (c = 0x0A \<or> c = 0x0D \<or> c = 0x2028 \<or> c = 0x2029)"

text \<open>\<^verbatim>\<open>s.replace(/x/g, by)\<close> for a single code unit \<open>x\<close>.\<close>

fun replace_char :: "code_unit \<Rightarrow> jsstring \<Rightarrow> jsstring \<Rightarrow> jsstring" where
  "replace_char x by [] = []"
| "replace_char x by (c # cs) =
     (if c = x then by @ replace_char x by cs else c # replace_char x by cs)"

text \<open>
  \<^verbatim>\<open>(.*?)d\<close> anchored at the start of the text: the shortest run of code units other than
  line terminators that is followed by \<open>d\<close>. The result is the captured group and the
  text after \<open>d\<close>.
\<close>

fun lazy_until :: "jsstring \<Rightarrow> jsstring \<Rightarrow> (jsstring \<times> jsstring) option" where
  "lazy_until d [] = (if d = [] then Some ([], []) else None)"
| "lazy_until d (c # cs) =
     (if prefix d (c # cs) then Some ([], drop (length d) (c # cs))
      else if is_line_terminator c then None
      else (case lazy_until d cs of
              None \<Rightarrow> None
            | Some (g, rest) \<Rightarrow> Some (c # g, rest)))"

text \<open>
  \<^verbatim>\<open>s.replace(/re/g, template)\<close>. The matcher \<open>m\<close> tries the expression at the start of a
  text and returns the instantiated template and the text after the match. The scan
  goes left to right and resumes after each match; \<open>k\<close> counts the code units of the
  current match that are still to be passed over. Every expression of this program
  consumes at least one code unit.
\<close>

fun replace_global ::
  "(jsstring \<Rightarrow> (jsstring \<times> jsstring) option) \<Rightarrow> nat \<Rightarrow> jsstring \<Rightarrow> jsstring" where
  "replace_global m k [] = []"
| "replace_global m (Suc k) (c # cs) = replace_global m k cs"
| "replace_global m 0 (c # cs) =
     (case m (c # cs) of
        None \<Rightarrow> c # replace_global m 0 cs
      | Some (out, rest) \<Rightarrow> out @ replace_global m (length cs - length rest) cs)"

text \<open>\<^verbatim>\<open>/opn(.*?)cls/\<close> with the template \<^verbatim>\<open>pre$1post\<close>.\<close>

definition delimited ::
  "jsstring \<Rightarrow> jsstring \<Rightarrow> jsstring \<Rightarrow> jsstring \<Rightarrow> jsstring \<Rightarrow> (jsstring \<times> jsstring) option" where
  "delimited opn cls pre post s =
     (if prefix opn s then
        (case lazy_until cls (drop (length opn) s) of
           None \<Rightarrow> None
         | Some (g, rest) \<Rightarrow> Some (pre @ g @ post, rest))
      else None)"

text \<open>
  \<^verbatim>\<open>(.*?)\]\((.*?)\)\<close> after the opening bracket: the first group grows one code unit
  at a time until \<^verbatim>\<open>](\<close> follows and the rest of the expression matches.
\<close>

fun link_body :: "jsstring \<Rightarrow> (jsstring \<times> jsstring \<times> jsstring) option" where
  "link_body [] = None"
| "link_body (c # cs) =
     (case (if prefix [rbracket, lparen] (c # cs) then lazy_until [rparen] (drop 2 (c # cs))
            else None) of
        Some (g2, rest) \<Rightarrow> Some ([], g2, rest)
      | None \<Rightarrow>
          if is_line_terminator c then None
          else (case link_body cs of
                  None \<Rightarrow> None
                | Some (g1, g2, rest) \<Rightarrow> Some (c # g1, g2, rest)))"

definition link_at :: "jsstring \<Rightarrow> (jsstring \<times> jsstring) option" where
  "link_at s =
     (case s of
        [] \<Rightarrow> None
      | c # cs \<Rightarrow>
          if c = lbracket then
            (case link_body cs of
               None \<Rightarrow> None
             | Some (g1, g2, rest) \<Rightarrow>
                 Some (js ''<a href='' @ [dquote] @ g2 @ [dquote]
                       @ js '' style='' @ [dquote]
                       @ js ''color: var(--accent-gold); text-decoration: underline;''
                       @ [dquote] @ js ''>'' @ g1 @ js ''</a>'', rest))
          else None)"

text \<open>\<^verbatim>\<open>/\<box>{3,}/\<close> for the box character: a greedy run of at least three.\<close>

definition separator_at :: "jsstring \<Rightarrow> (jsstring \<times> jsstring) option" where
  "separator_at s =
     (if 3 \<le> length (takeWhile (\<lambda>c. c = box_char) s) then
        Some (js ''<span class='' @ [dquote] @ js ''msg-separator'' @ [dquote] @ js ''></span>'',
              dropWhile (\<lambda>c. c = box_char) s)
      else None)"

definition escape_html :: "jsstring \<Rightarrow> jsstring" where
  "escape_html text =
     replace_char gt (js ''&gt;'') (replace_char lt (js ''&lt;'') (replace_char amp (js ''&amp;'') text))"

definition bold :: "jsstring \<Rightarrow> jsstring" where
  "bold = replace_global (delimited (js ''**'') (js ''**'') (js ''<strong>'') (js ''</strong>'')) 0"

definition italic :: "jsstring \<Rightarrow> jsstring" where
  "italic = replace_global (delimited [underscore] [underscore] (js ''<em>'') (js ''</em>'')) 0"

definition links :: "jsstring \<Rightarrow> jsstring" where
  "links = replace_global link_at 0"

definition inline_code :: "jsstring \<Rightarrow> jsstring" where
  "inline_code = replace_global (delimited [backtick] [backtick] (js ''<code>'') (js ''</code>'')) 0"

definition separator_lines :: "jsstring \<Rightarrow> jsstring" where
  "separator_lines = replace_global separator_at 0"

definition formatMessage :: "jsstring \<Rightarrow> jsstring" where
  "formatMessage text =
     separator_lines (inline_code (links (italic (bold (escape_html text)))))"

text \<open>
  The escaping as the specification words it: every \<^verbatim>\<open>&\<close>, \<^verbatim>\<open><\<close> and \<^verbatim>\<open>>\<close> becomes its
  entity, everything else stays.
\<close>

definition entity :: "code_unit \<Rightarrow> jsstring" where
  "entity c =
     (if c = amp then js ''&amp;'' else if c = lt then js ''&lt;''
      else if c = gt then js ''&gt;'' else [c])"

definition entity_escaped :: "jsstring \<Rightarrow> jsstring" where
  "entity_escaped text = concat (map entity text)"

text \<open>
  A text with one of the markup delimiters: \<^verbatim>\<open>[\<close>, later \<^verbatim>\<open>](\<close>, later \<^verbatim>\<open>)\<close> for a link.
\<close>

fun has_link_tail :: "jsstring \<Rightarrow> bool" where
  "has_link_tail [] = False"
| "has_link_tail (c # cs) =
     ((c = rbracket \<and> (case cs of [] \<Rightarrow> False | b # r \<Rightarrow> b = lparen \<and> rparen \<in> set r))
      \<or> has_link_tail cs)"

fun has_link :: "jsstring \<Rightarrow> bool" where
  "has_link [] = False"
| "has_link (c # cs) = ((c = lbracket \<and> has_link_tail cs) \<or> has_link cs)"

definition no_markup :: "jsstring \<Rightarrow> bool" where
  "no_markup text \<longleftrightarrow>
     \<not> sublist (js ''**'') text \<and> underscore \<notin> set text \<and> \<not> has_link text
     \<and> backtick \<notin> set text \<and> \<not> sublist [box_char, box_char, box_char] text"

text \<open>The code units of the three entities.\<close>

definition entity_units :: "code_unit set" where
  "entity_units = set (js ''&amp;lt;gt;'')"

section \<open>The page: script variables, document and pending requests\<close>

datatype role = Bot | User

text \<open>
  A child of \<^verbatim>\<open>chatMessages\<close>: a message built by \<^verbatim>\<open>addMessage\<close>, or the element with id
  \<^verbatim>\<open>typingIndicator\<close> built by \<^verbatim>\<open>showTyping\<close>. The class and the avatar of a message
  follow from its role; the string is the \<^verbatim>\<open>innerHTML\<close> its bubble was given, and the
  number counts the elements that \<^verbatim>\<open>removeTyping\<close> has since removed from the bubble.
\<close>

datatype node = Message role jsstring nat | TypingIndicator

datatype http_method = GET | POST

text \<open>
  A call of \<^verbatim>\<open>fetch\<close>. \<open>query_lang\<close> is the text that the template literal
  \<^verbatim>\<open>/api/init?lang=${currentLang}\<close> puts after \<^verbatim>\<open>lang=\<close>; \<open>body\<close> is the JSON value that
  \<^verbatim>\<open>JSON.stringify\<close> writes.
\<close>

record request =
  http_method :: http_method
  path :: jsstring
  query_lang :: "jsstring option"
  body :: "jsval option"

text \<open>The asynchronous functions whose continuation can be waiting for the network.\<close>

datatype operation = Init | Chat | SetLang | Reset | Pdf

text \<open>
  What \<^verbatim>\<open>await fetch(...)\<close> followed by \<^verbatim>\<open>await res.json()\<close> delivers: \<^verbatim>\<open>fetch\<close> rejects,
  the body is not JSON, or the parsed value.
\<close>

datatype outcome = Rejected | NotJson | Parsed jsval

text \<open>
  \<^verbatim>\<open>downloadPDF\<close>: \<open>PdfFailed\<close> stands for every throw inside its \<^verbatim>\<open>try\<close> (a rejected
  \<^verbatim>\<open>fetch\<close>, a status that is not ok, an unreadable body, a file name that does not
  decode), \<open>PdfSaved\<close> for a completed download.
\<close>

datatype pdf_outcome = PdfFailed | PdfSaved

text \<open>
  The four \<^verbatim>\<open>let\<close> variables of the script, the parts of the document it writes, the
  log of the requests it has issued, per operation the number of continuations waiting
  for a response, and the browser the page runs in. \<open>langUI\<close> and \<open>inputHint\<close> record
  the values from which \<^verbatim>\<open>updateLangUI\<close> and \<^verbatim>\<open>updateHint\<close> last rendered the flag, the
  placeholder and the hint line; \<open>devModal\<close> is \<open>None\<close> on a page without the modal;
  \<open>focused\<close> tells whether the script has given the input field the focus, and
  \<open>scrolls\<close> counts the calls of \<^verbatim>\<open>scrollToBottom\<close>. The markup of the page itself is
  taken to have no element with id \<^verbatim>\<open>typingIndicator\<close>.
\<close>

record client =
  isProcessing :: bool
  currentState :: jsval
  currentLang :: jsval
  currentHints :: jsval
  userInput_value :: jsstring
  btnSend_disabled :: bool
  chatMessages :: "node list"
  langUI :: "jsval option"
  inputHint :: "(jsval \<times> jsval \<times> jsval) option"
  stars :: nat
  devModal :: "bool option"
  focused :: bool
  scrolls :: nat
  requests :: "request list"
  awaiting :: "operation \<Rightarrow> nat"
  browser :: platform

definition init :: "platform \<Rightarrow> client" where
  "init b = \<lparr> isProcessing = False, currentState = Str (js ''greeting''),
              currentLang = Str (js ''my''), currentHints = Obj [],
              userInput_value = [], btnSend_disabled = False, chatMessages = [],
              langUI = None, inputHint = None, stars = 0, devModal = Some False,
              focused = False, scrolls = 0, requests = [], awaiting = (\<lambda>_. 0),
              browser = b \<rparr>"

definition fetch :: "operation \<Rightarrow> request \<Rightarrow> client \<Rightarrow> client" where
  "fetch op r s =
     s\<lparr> requests := requests s @ [r], awaiting := (awaiting s)(op := Suc (awaiting s op)) \<rparr>"

definition init_request :: "jsstring \<Rightarrow> request" where
  "init_request lang =
     \<lparr> http_method = GET, path = js ''/api/init'', query_lang = Some lang, body = None \<rparr>"

text \<open>
  \<^verbatim>\<open>JSON.stringify\<close>, read as the value that its text denotes: a member of an object
  that is \<^verbatim>\<open>undefined\<close> is left out, and an element of an array that is \<^verbatim>\<open>undefined\<close>
  is written as \<^verbatim>\<open>null\<close>. No value born from JSON has a callable \<^verbatim>\<open>toJSON\<close>. The script
  applies it to object literals only.
\<close>

fun stringify :: "jsval \<Rightarrow> jsval" where
  "stringify (Arr xs) = Arr (map (\<lambda>x. if x = Undefined then Null else stringify x) xs)"
| "stringify (Obj kvs) =
     Obj (map (\<lambda>kv. (fst kv, stringify (snd kv))) (filter (\<lambda>kv. snd kv \<noteq> Undefined) kvs))"
| "stringify v = v"


definition chat_request :: "jsstring \<Rightarrow> jsval \<Rightarrow> request" where
  "chat_request msg lang =
     \<lparr> http_method = POST, path = js ''/api/chat'', query_lang = None,
       body = Some (stringify (Obj [(js ''message'', Str msg), (js ''lang'', lang)])) \<rparr>"

definition set_lang_request :: "jsstring \<Rightarrow> request" where
  "set_lang_request newLang =
     \<lparr> http_method = POST, path = js ''/api/set_lang'', query_lang = None,
       body = Some (stringify (Obj [(js ''lang'', Str newLang)])) \<rparr>"

definition pdf_request :: request where
  "pdf_request =
     \<lparr> http_method = POST, path = js ''/api/generate-pdf'', query_lang = None, body = None \<rparr>"

subsection \<open>Message constants\<close>

definition err_connect_en :: jsstring where
  "err_connect_en = 0x274C # js '' Cannot connect to server. Please try again.''"

definition err_connect_my :: jsstring where
  "err_connect_my =
     [0x274C, 0x20, 0x1006, 0x102C, 0x1017, 0x102C, 0x1014, 0x103E, 0x1004, 0x1037, 0x103A,
      0x20, 0x1001, 0x103B, 0x102D, 0x1010, 0x103A, 0x1006, 0x1000, 0x103A, 0x104D, 0x20,
      0x1019, 0x101B, 0x1015, 0x102B, 0x104B, 0x20, 0x1011, 0x1015, 0x103A, 0x1019, 0x1036,
      0x1000, 0x103C, 0x102D, 0x102F, 0x1038, 0x1005, 0x102C, 0x1038, 0x1015, 0x102B, 0x104B]"

definition err_chat_en :: jsstring where
  "err_chat_en = 0x274C # js '' Something went wrong. Please try again.''"

definition err_chat_my :: jsstring where
  "err_chat_my =
     [0x274C, 0x20, 0x1010, 0x1005, 0x103A, 0x1005, 0x102F, 0x1036, 0x1010, 0x1005, 0x103A,
      0x1001, 0x102F, 0x20, 0x1019, 0x103E, 0x102C, 0x1038, 0x101A, 0x103D, 0x1004, 0x103A,
      0x1038, 0x1014, 0x1031, 0x1015, 0x102B, 0x101E, 0x100A, 0x103A, 0x104B, 0x20, 0x1011,
      0x1015, 0x103A, 0x1019, 0x1036, 0x1000, 0x103C, 0x102D, 0x102F, 0x1038, 0x1005, 0x102C,
      0x1038, 0x1015, 0x102B, 0x104B]"

definition pdf_done_msg :: jsstring where
  "pdf_done_msg =
     [0x2705, 0x20, 0x50, 0x44, 0x46, 0x20, 0x101F, 0x1031, 0x102C, 0x1005, 0x102C, 0x1010,
      0x1019, 0x103A, 0x1038, 0x20, 0x1012, 0x1031, 0x102B, 0x1004, 0x103A, 0x1038, 0x101C,
      0x102F, 0x1012, 0x103A, 0x20, 0x1021, 0x1031, 0x102C, 0x1004, 0x103A, 0x1019, 0x103C,
      0x1004, 0x103A, 0x1015, 0x102B, 0x1015, 0x103C, 0x102E, 0x21, 0x20, 0xD83C, 0xDF89]"

definition pdf_failed_msg :: jsstring where
  "pdf_failed_msg =
     [0x274C, 0x20, 0x50, 0x44, 0x46, 0x20, 0x1016, 0x1014, 0x103A, 0x1010, 0x102E, 0x1038,
      0x101B, 0x102C, 0x1010, 0x103D, 0x1004, 0x103A, 0x20, 0x1021, 0x1019, 0x103E, 0x102C,
      0x1038, 0x101B, 0x103E, 0x102D, 0x1015, 0x102B, 0x101E, 0x100A, 0x103A, 0x104B, 0x20,
      0x1011, 0x1015, 0x103A, 0x1019, 0x1036, 0x1000, 0x103C, 0x102D, 0x102F, 0x1038, 0x1005,
      0x102C, 0x1038, 0x1015, 0x102B, 0x104B]"

subsection \<open>Document helpers\<close>

text \<open>
  \<^verbatim>\<open>String.prototype.trim\<close> strips white space and line terminators from both ends.
\<close>

definition is_white_space :: "code_unit \<Rightarrow> bool" where
  "is_white_space c \<longleftrightarrow>
     c \<in> set [0x09, 0x0A, 0x0B, 0x0C, 0x0D, 0x20, 0xA0, 0x1680, 0x2000, 0x2001, 0x2002, 0x2003,
              0x2004, 0x2005, 0x2006, 0x2007, 0x2008, 0x2009, 0x200A, 0x2028, 0x2029, 0x202F,
              0x205F, 0x3000, 0xFEFF]"

definition trim :: "jsstring \<Rightarrow> jsstring" where
  "trim s = rev (dropWhile is_white_space (rev (dropWhile is_white_space s)))"

definition scrollToBottom :: "client \<Rightarrow> client" where
  "scrollToBottom s = s\<lparr> scrolls := Suc (scrolls s) \<rparr>"

text \<open>\<^verbatim>\<open>addMessage\<close> with a string: the bubble receives \<^verbatim>\<open>formatMessage(content)\<close>.\<close>

definition addMessage :: "role \<Rightarrow> jsstring \<Rightarrow> client \<Rightarrow> client" where
  "addMessage r content s =
     scrollToBottom (s\<lparr> chatMessages := chatMessages s @ [Message r (formatMessage content) 0] \<rparr>)"

text \<open>
  \<^verbatim>\<open>addMessage\<close> with a value of the server: \<^verbatim>\<open>text.replace\<close> throws a TypeError unless
  the value is a string, before anything is appended.
\<close>

fun addMessage_val :: "role \<Rightarrow> jsval \<Rightarrow> client \<Rightarrow> js_error + client" where
  "addMessage_val r (Str content) s = Inr (addMessage r content s)"
| "addMessage_val r v s = Inl TypeError"

definition showTyping :: "client \<Rightarrow> client" where
  "showTyping s = scrollToBottom (s\<lparr> chatMessages := chatMessages s @ [TypingIndicator] \<rparr>)"

text \<open>
  \<^verbatim>\<open>getElementById\<close> finds the first element of the document with the id, and
  \<^verbatim>\<open>remove\<close> takes it out: the typing indicator, unless a bubble before it holds an
  element with the same id, which then loses that element instead.
\<close>

fun remove_indicator :: "(jsstring \<Rightarrow> nat \<Rightarrow> bool) \<Rightarrow> node list \<Rightarrow> node list" where
  "remove_indicator holds [] = []"
| "remove_indicator holds (TypingIndicator # ns) = ns"
| "remove_indicator holds (Message r h k # ns) =
     (if holds h k then Message r h (Suc k) # ns
      else Message r h k # remove_indicator holds ns)"

definition removeTyping :: "client \<Rightarrow> client" where
  "removeTyping s =
     s\<lparr> chatMessages := remove_indicator (indicator_in (browser s)) (chatMessages s) \<rparr>"

text \<open>
  \<^verbatim>\<open>updateHint\<close> converts \<^verbatim>\<open>currentState\<close> to a property key in either branch, and in the
  first branch assigns \<^verbatim>\<open>currentHints[currentState]\<close>, a truthy value, to \<^verbatim>\<open>textContent\<close>,
  which converts it to a string. Either conversion can throw, before the hint line is
  written: \<open>Inl\<close> is the page at the throw. The fallback hints are strings.
\<close>

definition updateHint :: "client \<Rightarrow> client + client" where
  "updateHint s =
     (case to_string (browser s) (currentState s) of
        Inl e \<Rightarrow> Inl s
      | Inr key \<Rightarrow>
          (case (if truthy (currentHints s) then own_property (currentHints s) key else None) of
             None \<Rightarrow> Inr (s\<lparr> inputHint := Some (currentHints s, currentState s, currentLang s) \<rparr>)
           | Some hint \<Rightarrow>
               if truthy hint \<and> isl (to_string (browser s) hint) then Inl s
               else Inr (s\<lparr> inputHint := Some (currentHints s, currentState s, currentLang s) \<rparr>)))"

definition updateLangUI :: "client \<Rightarrow> client + client" where
  "updateLangUI s = updateHint (s\<lparr> langUI := Some (currentLang s) \<rparr>)"

definition createStars :: "client \<Rightarrow> client" where
  "createStars s = s\<lparr> stars := stars s + 80 \<rparr>"

definition toggleDevModal :: "client \<Rightarrow> client" where
  "toggleDevModal s = s\<lparr> devModal := map_option Not (devModal s) \<rparr>"

section \<open>The operations\<close>

text \<open>
  An \<^verbatim>\<open>async\<close> function is two functions here: the part that runs up to its first
  \<^verbatim>\<open>await\<close>, and the continuation (suffix \<open>_resume\<close>) that runs once the response has
  been read. A \<^verbatim>\<open>try\<close> block does not undo anything: its body returns \<open>Inl\<close> with the
  page as it is at the throwing statement, and the handler continues from there.
\<close>

subsection \<open>initChat and resetChat\<close>

definition initChat_catch :: "client \<Rightarrow> client" where
  "initChat_catch s =
     (let s1 = removeTyping s;
          errMsg = (if currentLang s1 = Str (js ''en'') then err_connect_en else err_connect_my)
      in addMessage Bot errMsg s1)"

text \<open>
  The template literal of the URL is evaluated inside the \<^verbatim>\<open>try\<close>: when \<^verbatim>\<open>currentLang\<close>
  has no string conversion, the handler runs at once and nothing is fetched.
\<close>

definition initChat :: "client \<Rightarrow> client" where
  "initChat s =
     (let s1 = showTyping s in
      case to_string (browser s1) (currentLang s1) of
        Inl e \<Rightarrow> initChat_catch s1
      | Inr lang \<Rightarrow> fetch Init (init_request lang) s1)"

text \<open>
  The statements that \<^verbatim>\<open>initChat\<close> and the callback of \<^verbatim>\<open>resetChat\<close> share:
  \<^verbatim>\<open>addMessage('bot', data.response); currentState = data.state;
  if (data.lang) currentLang = data.lang; if (data.hints) currentHints = data.hints;
  updateLangUI();\<close>
\<close>

definition receive_init :: "jsval \<Rightarrow> client \<Rightarrow> client + client" where
  "receive_init data s =
     (case get data (js ''response'') of
        Inl e \<Rightarrow> Inl s
      | Inr r \<Rightarrow>
     (case addMessage_val Bot r s of
        Inl e \<Rightarrow> Inl s
      | Inr s2 \<Rightarrow>
     (case get data (js ''state'') of
        Inl e \<Rightarrow> Inl s2
      | Inr st \<Rightarrow>
     (let s3 = s2\<lparr> currentState := st \<rparr> in
      case get data (js ''lang'') of
        Inl e \<Rightarrow> Inl s3
      | Inr l \<Rightarrow>
     (let s4 = (if truthy l then s3\<lparr> currentLang := l \<rparr> else s3) in
      case get data (js ''hints'') of
        Inl e \<Rightarrow> Inl s4
      | Inr h \<Rightarrow>
     (let s5 = (if truthy h then s4\<lparr> currentHints := h \<rparr> else s4) in
      updateLangUI s5))))))"

definition initChat_resume :: "outcome \<Rightarrow> client \<Rightarrow> client" where
  "initChat_resume out s =
     (case out of
        Rejected \<Rightarrow> initChat_catch s
      | NotJson \<Rightarrow> initChat_catch s
      | Parsed data \<Rightarrow>
          (case receive_init data (removeTyping s) of
             Inl s1 \<Rightarrow> initChat_catch s1
           | Inr s1 \<Rightarrow> s1))"

text \<open>
  \<^verbatim>\<open>resetChat\<close> throws, after it has emptied the chat and reset the state, when the
  template literal of the URL cannot convert \<^verbatim>\<open>currentLang\<close>.
\<close>

definition resetChat :: "client \<Rightarrow> client + client" where
  "resetChat s =
     (let s1 = s\<lparr> chatMessages := [], currentState := Str (js ''greeting'') \<rparr> in
      case to_string (browser s1) (currentLang s1) of
        Inl e \<Rightarrow> Inl s1
      | Inr lang \<Rightarrow> Inr (fetch Reset (init_request lang) s1))"

text \<open>The promise chain of \<^verbatim>\<open>resetChat\<close> has no handler: a throw ends it where it is.\<close>

definition resetChat_resume :: "outcome \<Rightarrow> client \<Rightarrow> client" where
  "resetChat_resume out s =
     (case out of
        Rejected \<Rightarrow> s
      | NotJson \<Rightarrow> s
      | Parsed data \<Rightarrow> (case receive_init data s of Inl s1 \<Rightarrow> s1 | Inr s1 \<Rightarrow> s1))"

subsection \<open>sendMessage\<close>

definition sendMessage :: "client \<Rightarrow> client" where
  "sendMessage s =
     (let msg = trim (userInput_value s) in
      if msg = [] \<or> isProcessing s then s
      else
        (let s1 = s\<lparr> isProcessing := True, btnSend_disabled := True, userInput_value := [] \<rparr>;
             s2 = addMessage User msg s1;
             s3 = showTyping s2
         in fetch Chat (chat_request msg (currentLang s3)) s3))"

definition receive_chat :: "jsval \<Rightarrow> client \<Rightarrow> client + client" where
  "receive_chat data s =
     (case get data (js ''response'') of
        Inl e \<Rightarrow> Inl s
      | Inr r \<Rightarrow>
     (case addMessage_val Bot r s of
        Inl e \<Rightarrow> Inl s
      | Inr s2 \<Rightarrow>
     (case get data (js ''state'') of
        Inl e \<Rightarrow> Inl s2
      | Inr st \<Rightarrow>
     (let s3 = s2\<lparr> currentState := st \<rparr> in
      case get data (js ''lang'') of
        Inl e \<Rightarrow> Inl s3
      | Inr l \<Rightarrow>
     (let s4 = (if truthy l then s3\<lparr> currentLang := l \<rparr> else s3) in
      updateHint s4)))))"

definition sendMessage_catch :: "client \<Rightarrow> client" where
  "sendMessage_catch s =
     (let s1 = removeTyping s;
          errMsg = (if currentLang s1 = Str (js ''en'') then err_chat_en else err_chat_my)
      in addMessage Bot errMsg s1)"

text \<open>After the \<^verbatim>\<open>try\<close> statement: the flag, the button and \<^verbatim>\<open>userInput.focus()\<close>.\<close>

definition sendMessage_resume :: "outcome \<Rightarrow> client \<Rightarrow> client" where
  "sendMessage_resume out s =
     (let s' = (case out of
                  Rejected \<Rightarrow> sendMessage_catch s
                | NotJson \<Rightarrow> sendMessage_catch s
                | Parsed data \<Rightarrow>
                    (case receive_chat data (removeTyping s) of
                       Inl s1 \<Rightarrow> sendMessage_catch s1
                     | Inr s1 \<Rightarrow> s1))
      in s'\<lparr> isProcessing := False, btnSend_disabled := False, focused := True \<rparr>)"

subsection \<open>toggleLanguage\<close>

definition toggleLanguage :: "client \<Rightarrow> client" where
  "toggleLanguage s =
     (let newLang = (if currentLang s = Str (js ''my'') then js ''en'' else js ''my'')
      in fetch SetLang (set_lang_request newLang) s)"

text \<open>
  The handler only writes to the console: a throw of \<^verbatim>\<open>data.lang\<close>, of \<^verbatim>\<open>updateLangUI\<close> or
  of \<^verbatim>\<open>resetChat\<close> leaves the page as it is at the throw.
\<close>

definition toggleLanguage_resume :: "outcome \<Rightarrow> client \<Rightarrow> client" where
  "toggleLanguage_resume out s =
     (case out of
        Rejected \<Rightarrow> s
      | NotJson \<Rightarrow> s
      | Parsed data \<Rightarrow>
     (case get data (js ''lang'') of
        Inl e \<Rightarrow> s
      | Inr l \<Rightarrow>
     (let s1 = s\<lparr> currentLang := l \<rparr> in
      case get data (js ''hints'') of
        Inl e \<Rightarrow> s1
      | Inr h \<Rightarrow>
     (let s2 = s1\<lparr> currentHints := (if truthy h then h else Obj []) \<rparr> in
      case updateLangUI s2 of
        Inl s3 \<Rightarrow> s3
      | Inr s3 \<Rightarrow> (case resetChat s3 of Inl s4 \<Rightarrow> s4 | Inr s4 \<Rightarrow> s4)))))"

subsection \<open>downloadPDF\<close>

definition downloadPDF :: "client \<Rightarrow> client" where
  "downloadPDF s = fetch Pdf pdf_request s"

definition downloadPDF_resume :: "pdf_outcome \<Rightarrow> client \<Rightarrow> client" where
  "downloadPDF_resume out s =
     (case out of
        PdfSaved \<Rightarrow> addMessage Bot pdf_done_msg s
      | PdfFailed \<Rightarrow> addMessage Bot pdf_failed_msg s)"

section \<open>The event loop\<close>

text \<open>
  What can happen to the page: the document is loaded, the user edits the input field,
  a handler calls one of the functions (the \<^verbatim>\<open>keydown\<close> listener calls \<^verbatim>\<open>sendMessage\<close>),
  or the response to a pending request arrives.
\<close>

datatype event =
    DOMContentLoaded
  | UserInput jsstring
  | Call_sendMessage
  | Call_toggleLanguage
  | Call_downloadPDF
  | Call_toggleDevModal
  | Response_init outcome
  | Response_chat outcome
  | Response_set_lang outcome
  | Response_reset outcome
  | Response_pdf pdf_outcome

definition settle :: "operation \<Rightarrow> client \<Rightarrow> client" where
  "settle op s = s\<lparr> awaiting := (awaiting s)(op := awaiting s op - 1) \<rparr>"

fun step :: "event \<Rightarrow> client \<Rightarrow> client" where
  "step DOMContentLoaded s = initChat (createStars s)"
| "step (UserInput v) s = s\<lparr> userInput_value := v \<rparr>"
| "step Call_sendMessage s = sendMessage s"
| "step Call_toggleLanguage s = toggleLanguage s"
| "step Call_downloadPDF s = downloadPDF s"
| "step Call_toggleDevModal s = toggleDevModal s"
| "step (Response_init out) s =
     (if awaiting s Init = 0 then s else initChat_resume out (settle Init s))"
| "step (Response_chat out) s =
     (if awaiting s Chat = 0 then s else sendMessage_resume out (settle Chat s))"
| "step (Response_set_lang out) s =
     (if awaiting s SetLang = 0 then s else toggleLanguage_resume out (settle SetLang s))"
| "step (Response_reset out) s =
     (if awaiting s Reset = 0 then s else resetChat_resume out (settle Reset s))"
| "step (Response_pdf out) s =
     (if awaiting s Pdf = 0 then s else downloadPDF_resume out (settle Pdf s))"

fun run :: "event list \<Rightarrow> client \<Rightarrow> client" where
  "run [] s = s"
| "run (e # es) s = run es (step e s)"

section \<open>Vocabulary of the properties\<close>

text \<open>The value of \<^verbatim>\<open>data.k\<close> where reading it does not throw.\<close>

definition prop_of :: "jsval \<Rightarrow> jsstring \<Rightarrow> jsval" where
  "prop_of data k = (case get data k of Inl e \<Rightarrow> Undefined | Inr v \<Rightarrow> v)"

text \<open>A response that \<^verbatim>\<open>addMessage\<close> can render: its \<^verbatim>\<open>response\<close> is a string.\<close>

definition renders :: "jsval \<Rightarrow> bool" where
  "renders data = (case get data (js ''response'') of Inr (Str r) \<Rightarrow> True | _ \<Rightarrow> False)"

text \<open>
  A request that fails before anything of its response is shown: the \<^verbatim>\<open>fetch\<close> is
  rejected, the body is not JSON, or its \<^verbatim>\<open>response\<close> is not a string.
\<close>

fun failed :: "outcome \<Rightarrow> bool" where
  "failed Rejected = True"
| "failed NotJson = True"
| "failed (Parsed data) = (\<not> renders data)"

text \<open>
  The continuation of \<^verbatim>\<open>sendMessage\<close>, and of \<^verbatim>\<open>initChat\<close>, ends in its \<^verbatim>\<open>catch\<close> block:
  the request has failed, or the response is shown and \<^verbatim>\<open>updateHint\<close> throws afterwards.
\<close>

definition chat_catches :: "outcome \<Rightarrow> client \<Rightarrow> bool" where
  "chat_catches out s =
     (case out of Parsed data \<Rightarrow> isl (receive_chat data (removeTyping s)) | _ \<Rightarrow> True)"

definition init_catches :: "outcome \<Rightarrow> client \<Rightarrow> bool" where
  "init_catches out s =
     (case out of Parsed data \<Rightarrow> isl (receive_init data (removeTyping s)) | _ \<Rightarrow> True)"

text \<open>
  The messages of the chat in order, each with its role and the \<^verbatim>\<open>innerHTML\<close> it was
  given; typing indicators are left out.
\<close>

fun message_of :: "node \<Rightarrow> (role \<times> jsstring) option" where
  "message_of (Message r h k) = Some (r, h)"
| "message_of TypingIndicator = None"

definition messages :: "node list \<Rightarrow> (role \<times> jsstring) list" where
  "messages ns = List.map_filter message_of ns"

text \<open>No bubble of the list holds an element with the id of the typing indicator.\<close>

fun indicator_free :: "(jsstring \<Rightarrow> nat \<Rightarrow> bool) \<Rightarrow> node list \<Rightarrow> bool" where
  "indicator_free holds [] = True"
| "indicator_free holds (TypingIndicator # ns) = indicator_free holds ns"
| "indicator_free holds (Message r h k # ns) = (\<not> holds h k \<and> indicator_free holds ns)"

text \<open>The error message of each handler in the language of the page.\<close>

definition connect_error :: "client \<Rightarrow> jsstring" where
  "connect_error s = (if currentLang s = Str (js ''en'') then err_connect_en else err_connect_my)"

definition chat_error :: "client \<Rightarrow> jsstring" where
  "chat_error s = (if currentLang s = Str (js ''en'') then err_chat_en else err_chat_my)"

definition endpoint :: "request \<Rightarrow> http_method \<times> jsstring" where
  "endpoint r = (http_method r, path r)"

definition endpoints :: "(http_method \<times> jsstring) list" where
  "endpoints =
     [(GET, js ''/api/init''), (POST, js ''/api/chat''), (POST, js ''/api/set_lang''),
      (POST, js ''/api/generate-pdf'')]"

text \<open>The parsed body that an event delivers, and the operation it belongs to.\<close>

fun delivered :: "event \<Rightarrow> (operation \<times> jsval) option" where
  "delivered (Response_init (Parsed data)) = Some (Init, data)"
| "delivered (Response_chat (Parsed data)) = Some (Chat, data)"
| "delivered (Response_set_lang (Parsed data)) = Some (SetLang, data)"
| "delivered (Response_reset (Parsed data)) = Some (Reset, data)"
| "delivered e = None"

text \<open>
  The \<^verbatim>\<open>state\<close> field of a response from \<^verbatim>\<open>/api/init\<close> or \<^verbatim>\<open>/api/chat\<close>, if the event
  delivers one.
\<close>

definition state_field :: "event \<Rightarrow> jsval option" where
  "state_field e =
     (case delivered e of
        None \<Rightarrow> None
      | Some (op, data) \<Rightarrow>
          if op = SetLang then None
          else (case get data (js ''state'') of Inl x \<Rightarrow> None | Inr v \<Rightarrow> Some v))"

definition served_states :: "event list \<Rightarrow> jsval list" where
  "served_states evs = List.map_filter state_field evs"

text \<open>The field \<open>k\<close> of the response that an event delivers.\<close>

definition field_of :: "jsstring \<Rightarrow> event \<Rightarrow> jsval option" where
  "field_of k e =
     (case delivered e of
        None \<Rightarrow> None
      | Some (op, data) \<Rightarrow> (case get data k of Inl x \<Rightarrow> None | Inr v \<Rightarrow> Some v))"

text \<open>
  The bubble that shows the response of the server, when there is one to show.
\<close>

definition reply_bubble :: "outcome \<Rightarrow> (role \<times> jsstring) list" where
  "reply_bubble out =
     (case out of
        Parsed data \<Rightarrow>
          (case get data (js ''response'') of
             Inr (Str r) \<Rightarrow> [(Bot, formatMessage r)]
           | _ \<Rightarrow> [])
      | _ \<Rightarrow> [])"

text \<open>
  An optional field: the value of \<^verbatim>\<open>data.k\<close> when it is truthy, the previous value
  otherwise (\<^verbatim>\<open>if (data.k) x = data.k\<close>).
\<close>

definition optional_field :: "jsstring \<Rightarrow> jsval \<Rightarrow> jsval \<Rightarrow> jsval" where
  "optional_field k data old = (if truthy (prop_of data k) then prop_of data k else old)"

text \<open>
  The page once the statements between \<^verbatim>\<open>addMessage('bot', data.response)\<close> and the
  update of the hint line have run on a response with the text \<open>r\<close>: in \<^verbatim>\<open>sendMessage\<close>,
  and in \<^verbatim>\<open>initChat\<close> and the callback of \<^verbatim>\<open>resetChat\<close>.
\<close>

definition shown_chat :: "jsval \<Rightarrow> jsstring \<Rightarrow> client \<Rightarrow> client" where
  "shown_chat data r s =
     (addMessage Bot r s)\<lparr> currentState := prop_of data (js ''state''),
        currentLang := optional_field (js ''lang'') data (currentLang s) \<rparr>"

definition shown_init :: "jsval \<Rightarrow> jsstring \<Rightarrow> client \<Rightarrow> client" where
  "shown_init data r s =
     (addMessage Bot r s)\<lparr> currentState := prop_of data (js ''state''),
        currentLang := optional_field (js ''lang'') data (currentLang s),
        currentHints := optional_field (js ''hints'') data (currentHints s),
        langUI := Some (optional_field (js ''lang'') data (currentLang s)) \<rparr>"

text \<open>
  The continuation of \<^verbatim>\<open>toggleLanguage\<close> gets as far as its call of \<^verbatim>\<open>resetChat\<close>: the
  body has been parsed, reading \<^verbatim>\<open>data.lang\<close> does not throw, and neither does
  \<^verbatim>\<open>updateLangUI\<close> on the new language and hints.
\<close>

definition reaches_resetChat :: "outcome \<Rightarrow> client \<Rightarrow> bool" where
  "reaches_resetChat out s =
     (case out of
        Parsed data \<Rightarrow>
          data \<noteq> Null \<and> data \<noteq> Undefined
          \<and> \<not> isl (updateLangUI
                (s\<lparr> currentLang := prop_of data (js ''lang''),
                    currentHints := (if truthy (prop_of data (js ''hints''))
                                     then prop_of data (js ''hints'') else Obj []) \<rparr>))
      | _ \<Rightarrow> False)"

text \<open>A response that is shown, with a state that has no string conversion.\<close>

definition late_reply :: jsval where
  "late_reply =
     Obj [(js ''response'', Str (js ''ok'')), (js ''state'', Obj [(js ''toString'', Null)])]"

section \<open>Example pages and runs\<close>

text \<open>
  A browser for the examples, none of which has a number or a link: it prints every
  number as \<^verbatim>\<open>0\<close> and finds no element with the id of the typing indicator in a bubble.
\<close>

definition example_browser :: platform where
  "example_browser = \<lparr> number_string = (\<lambda>x. js ''0''), indicator_in = (\<lambda>h k. False) \<rparr>"

definition start :: client where
  "start = init example_browser"

text \<open>The fresh page after the user has typed into the input field.\<close>

definition typed_page :: client where
  "typed_page = step (UserInput (js '' hello '')) start"

text \<open>A message has been sent and a second one typed while the first is in flight.\<close>

definition busy_page :: client where
  "busy_page = run [UserInput (js ''hi''), Call_sendMessage, UserInput (js ''yo'')] start"

text \<open>The input field holds a space, a tab and a line feed.\<close>

definition blank_page :: client where
  "blank_page = step (UserInput [0x20, 0x09, 0x0A]) start"

text \<open>The page is loaded, a message sent, the language toggled and the PDF requested.\<close>

definition endpoint_tour :: "event list" where
  "endpoint_tour =
     [DOMContentLoaded, UserInput (js ''hi''), Call_sendMessage, Call_toggleLanguage,
      Call_downloadPDF]"

text \<open>The page right after loading, waiting for \<^verbatim>\<open>/api/init\<close>.\<close>

definition loading_page :: client where
  "loading_page = step DOMContentLoaded start"

text \<open>
  The server greets with the state \<^verbatim>\<open>ask_dob\<close>; the user then switches the language and the
  server confirms.
\<close>

definition dob_reply :: jsval where
  "dob_reply = Obj [(js ''response'', Str (js ''hi'')), (js ''state'', Str (js ''ask_dob''))]"

definition reset_tour :: "event list" where
  "reset_tour =
     [DOMContentLoaded,
      Response_init (Parsed dob_reply),
      Call_toggleLanguage,
      Response_set_lang (Parsed (Obj [(js ''lang'', Str (js ''en''))]))]"

text \<open>The server has supplied hints; the user has asked for the other language.\<close>

definition hinted_page :: client where
  "hinted_page =
     run [DOMContentLoaded,
          Response_init (Parsed (Obj [(js ''response'', Str (js ''hi'')),
                                      (js ''state'', Str (js ''greeting'')),
                                      (js ''hints'', Obj [(js ''greeting'', Str (js ''name''))])])),
          Call_toggleLanguage] start"

text \<open>A response with a text and a language, without state and hints.\<close>

definition english_reply :: jsval where
  "english_reply = Obj [(js ''response'', Str (js ''hi'')), (js ''lang'', Str (js ''en''))]"

text \<open>
  A browser for an example with a link: it finds an element with the id of the typing
  indicator in a bubble whose markup has the attribute \<^verbatim>\<open>id="typingIndicator"\<close>, until one
  element has been removed from that bubble. The text \<^verbatim>\<open>[x](" id="typingIndicator)\<close> makes
  the link rule write such an attribute into its \<^verbatim>\<open><a>\<close> tag.
\<close>

definition link_browser :: platform where
  "link_browser =
     \<lparr> number_string = (\<lambda>x. js ''0''),
       indicator_in = (\<lambda>h k. k = 0
          \<and> sublist (js '' id='' @ [dquote] @ js ''typingIndicator'' @ [dquote]) h) \<rparr>"

definition injected_text :: jsstring where
  "injected_text = js ''[x]('' @ [dquote] @ js '' id='' @ [dquote] @ js ''typingIndicator)''"

definition injected_page :: client where
  "injected_page = step (UserInput injected_text) (init link_browser)"

section \<open>Properties of formatMessage\<close>


lemma escape_html_entity: "escape_html s = entity_escaped s"
  unfolding escape_html_def entity_escaped_def
  by (induction s) (auto simp: entity_def js_def amp_def lt_def gt_def)

lemma replace_global_id:
  "(\<forall>t. suffix t s \<and> t \<noteq> [] \<longrightarrow> m t = None) \<Longrightarrow> replace_global m 0 s = s"
proof (induction s)
  case Nil
  then show ?case by simp
next
  case (Cons c cs)
  have "m (c # cs) = None" using Cons.prems by simp
  moreover have "replace_global m 0 cs = cs"
    using Cons.prems by (intro Cons.IH) (auto simp: suffix_Cons)
  ultimately show ?case by simp
qed

lemma delimited_prefix: "delimited opn cls pre post t = Some r \<Longrightarrow> prefix opn t"
  by (auto simp: delimited_def split: if_splits)

lemma delimited_id:
  "\<not> sublist opn s \<Longrightarrow> replace_global (delimited opn cls pre post) 0 s = s"
  apply (rule replace_global_id)
  using delimited_prefix sublist_altdef' 
  by (metis not_Some_eq)

lemma entity_cases:
  "entity c = [c] \<and> c \<noteq> amp \<or> (\<exists>e es. entity c = amp # e # es \<and> set (e # es) \<subseteq> entity_units)"
  by (auto simp: entity_def entity_units_def js_def amp_def lt_def gt_def)

lemma set_entity_escaped: "set (entity_escaped s) \<subseteq> set s \<union> entity_units"
  unfolding entity_escaped_def
  by (induction s) (auto simp: entity_def entity_units_def js_def)

lemma prefix_entity_escaped:
  "prefix d (entity_escaped s) \<Longrightarrow> amp \<notin> set d \<Longrightarrow> prefix d s"
proof (induction s arbitrary: d)
  case Nil
  then show ?case by (simp add: entity_escaped_def)
next
  case (Cons c cs)
  show ?case
  proof (cases d)
    case Nil
    then show ?thesis by simp
  next
    case (Cons x d')
    have e: "entity_escaped (c # cs) = entity c @ entity_escaped cs"
      by (simp add: entity_escaped_def)
    from entity_cases[of c] show ?thesis
    proof
      assume "entity c = [c] \<and> c \<noteq> amp"
      with Cons.prems e Cons Cons.IH[of d'] show ?thesis by auto
    next
      assume "\<exists>e es. entity c = amp # e # es \<and> set (e # es) \<subseteq> entity_units"
      with Cons.prems e Cons show ?thesis by auto
    qed
  qed
qed

lemma sublist_skip:
  "sublist d (es @ r) \<Longrightarrow> d \<noteq> [] \<Longrightarrow> set d \<inter> set es = {} \<Longrightarrow> sublist d r"
proof (induction es)
  case Nil
  then show ?case by simp
next
  case (Cons e es)
  from Cons.prems(1) have "prefix d (e # es @ r) \<or> sublist d (es @ r)"
    by (simp add: sublist_Cons_right)
  moreover have "\<not> prefix d (e # es @ r)"
    using Cons.prems(2,3) by (cases d) auto
  ultimately show ?case using Cons by auto
qed

lemma sublist_entity_escaped:
  "sublist d (entity_escaped s) \<Longrightarrow> d \<noteq> [] \<Longrightarrow> set d \<inter> entity_units = {} \<Longrightarrow> sublist d s"
proof (induction s)
  case Nil
  then show ?case by (simp add: entity_escaped_def)
next
  case (Cons c cs)
  have e: "entity_escaped (c # cs) = entity c @ entity_escaped cs"
    by (simp add: entity_escaped_def)
  have a: "amp \<notin> set d" using Cons.prems(3) by (auto simp: entity_units_def js_def amp_def)
  from entity_cases[of c] show ?case
  proof
    assume c: "entity c = [c] \<and> c \<noteq> amp"
    with Cons.prems(1) e have "prefix d (entity_escaped (c # cs)) \<or> sublist d (entity_escaped cs)"
      by (simp add: sublist_Cons_right)
    then show ?thesis
      using prefix_entity_escaped[OF _ a] Cons.IH Cons.prems(2,3)
      by (auto simp: sublist_Cons_right)
  next
    assume "\<exists>e es. entity c = amp # e # es \<and> set (e # es) \<subseteq> entity_units"
    then obtain es where es: "entity c = es" "set es \<subseteq> entity_units"
      using a by (auto simp: entity_units_def js_def amp_def)
    have "sublist d (entity_escaped cs)"
      using sublist_skip[of d es "entity_escaped cs"] Cons.prems e es by auto
    then show ?thesis using Cons.IH Cons.prems(2,3) by (auto simp: sublist_Cons_right)
  qed
qed


lemma entity_escaped_Cons: "entity_escaped (c # cs) = entity c @ entity_escaped cs"
  by (simp add: entity_escaped_def)

lemma has_link_tail_skip:
  "set es \<inter> {rbracket} = {} \<Longrightarrow> has_link_tail (es @ r) = has_link_tail r"
  by (induction es) auto

lemma has_link_skip:
  "set es \<inter> {lbracket} = {} \<Longrightarrow> has_link (es @ r) = has_link r"
  by (induction es) auto

lemma delims_not_entity:
  "rbracket \<notin> entity_units" "lbracket \<notin> entity_units" "lparen \<notin> entity_units"
  "rparen \<notin> entity_units" "underscore \<notin> entity_units" "backtick \<notin> entity_units"
  "box_char \<notin> entity_units" "lt \<notin> entity_units" "gt \<notin> entity_units"
  by (simp_all add: entity_units_def js_def rbracket_def lbracket_def lparen_def rparen_def
      underscore_def backtick_def box_char_def lt_def gt_def)

lemma escaped_hd:
  "entity_escaped s = b # r \<Longrightarrow> b \<notin> entity_units \<Longrightarrow> \<exists>s'. s = b # s' \<and> r = entity_escaped s'"
proof (cases s)
  case Nil
  assume "entity_escaped s = b # r" with Nil show ?thesis by (simp add: entity_escaped_def)
next
  case (Cons c cs)
  assume a: "entity_escaped s = b # r" "b \<notin> entity_units"
  from entity_cases[of c] a Cons show ?thesis
    by (auto simp: entity_escaped_Cons entity_units_def js_def amp_def)
qed

lemma mem_escaped: "x \<in> set (entity_escaped s) \<Longrightarrow> x \<notin> entity_units \<Longrightarrow> x \<in> set s"
  using set_entity_escaped by blast

lemma has_link_tail_escaped: "has_link_tail (entity_escaped s) \<Longrightarrow> has_link_tail s"
proof (induction s)
  case Nil
  then show ?case by (simp add: entity_escaped_def)
next
  case (Cons c cs)
  from entity_cases[of c] show ?case
  proof
    assume c: "entity c = [c] \<and> c \<noteq> amp"
    with Cons.prems have
      "(c = rbracket \<and> (case entity_escaped cs of [] \<Rightarrow> False | b # r \<Rightarrow> b = lparen \<and> rparen \<in> set r))
       \<or> has_link_tail (entity_escaped cs)"
      by (simp add: entity_escaped_Cons)
    then show ?thesis
    proof
      assume h: "c = rbracket \<and> (case entity_escaped cs of [] \<Rightarrow> False | b # r \<Rightarrow> b = lparen \<and> rparen \<in> set r)"
      then obtain r where r: "entity_escaped cs = lparen # r" "rparen \<in> set r"
        by (auto split: list.splits)
      from escaped_hd[OF r(1) delims_not_entity(3)] obtain s' where
        "cs = lparen # s'" "r = entity_escaped s'" by blast
      with r mem_escaped[OF _ delims_not_entity(4)] h show ?thesis by auto
    next
      assume "has_link_tail (entity_escaped cs)"
      then show ?thesis using Cons.IH by simp
    qed
  next
    assume "\<exists>e es. entity c = amp # e # es \<and> set (e # es) \<subseteq> entity_units"
    then obtain es where es: "entity c = es" "set es \<subseteq> entity_units"
      by (auto simp: entity_units_def js_def amp_def)
    then have "set es \<inter> {rbracket} = {}" using delims_not_entity(1) by auto
    from has_link_tail_skip[OF this] Cons.prems es have "has_link_tail (entity_escaped cs)"
      by (simp add: entity_escaped_Cons)
    then show ?thesis using Cons.IH by simp
  qed
qed

lemma has_link_escaped: "has_link (entity_escaped s) \<Longrightarrow> has_link s"
proof (induction s)
  case Nil
  then show ?case by (simp add: entity_escaped_def)
next
  case (Cons c cs)
  from entity_cases[of c] show ?case
  proof
    assume c: "entity c = [c] \<and> c \<noteq> amp"
    with Cons.prems have "(c = lbracket \<and> has_link_tail (entity_escaped cs)) \<or> has_link (entity_escaped cs)"
      by (simp add: entity_escaped_Cons)
    then show ?thesis using Cons.IH has_link_tail_escaped by auto
  next
    assume "\<exists>e es. entity c = amp # e # es \<and> set (e # es) \<subseteq> entity_units"
    then obtain es where es: "entity c = es" "set es \<subseteq> entity_units"
      by (auto simp: entity_units_def js_def amp_def)
    then have "set es \<inter> {lbracket} = {}" using delims_not_entity(2) by auto
    from has_link_skip[OF this] Cons.prems es have "has_link (entity_escaped cs)"
      by (simp add: entity_escaped_Cons)
    then show ?thesis using Cons.IH by simp
  qed
qed

lemma lazy_until_mem: "lazy_until [x] s = Some r \<Longrightarrow> x \<in> set s"
  by (induction s arbitrary: r) (auto split: if_splits option.splits)

lemma link_body_tail: "link_body s = Some r \<Longrightarrow> has_link_tail s"
proof (induction s arbitrary: r)
  case Nil
  then show ?case by simp
next
  case (Cons c cs)
  show ?case
  proof (cases "prefix [rbracket, lparen] (c # cs) \<and> lazy_until [rparen] (drop 2 (c # cs)) \<noteq> None")
    case True
    then obtain r' q where "c = rbracket" "cs = lparen # r'" "lazy_until [rparen] r' = Some q"
      by (cases cs) auto
    then show ?thesis using lazy_until_mem by auto
  next
    case False
    then have "\<exists>q. link_body cs = Some q"
      using Cons.prems by (auto split: if_splits option.splits)
    then show ?thesis using Cons.IH by auto
  qed
qed

lemma link_at_has_link: "link_at t = Some r \<Longrightarrow> has_link t"
  by (auto simp: link_at_def split: list.splits if_splits option.splits dest: link_body_tail)

lemma has_link_suffix: "suffix t s \<Longrightarrow> has_link t \<Longrightarrow> has_link s"
  by (induction s) (auto simp: suffix_Cons)

lemma links_id: "\<not> has_link s \<Longrightarrow> links s = s"
  unfolding links_def
  by (rule replace_global_id) (metis has_link_suffix link_at_has_link not_Some_eq)

lemma takeWhile_eq_prefix:
  "n \<le> length (takeWhile (\<lambda>c. c = x) t) \<Longrightarrow> prefix (replicate n x) t"
proof (induction t arbitrary: n)
  case Nil
  then show ?case by simp
next
  case (Cons c cs)
  then show ?case by (cases n) (auto split: if_splits)
qed

lemma separator_at_prefix: "separator_at t = Some r \<Longrightarrow> prefix [box_char, box_char, box_char] t"
proof -
  assume "separator_at t = Some r"
  then have "3 \<le> length (takeWhile (\<lambda>c. c = box_char) t)"
    by (auto simp: separator_at_def split: if_splits)
  from takeWhile_eq_prefix[OF this] show ?thesis by (simp add: numeral_3_eq_3)
qed

lemma separator_lines_id: "\<not> sublist [box_char, box_char, box_char] s \<Longrightarrow> separator_lines s = s"
  unfolding separator_lines_def
  by (rule replace_global_id) (metis separator_at_prefix sublist_altdef' not_Some_eq)

lemma single_sublist: "sublist [x] s \<longleftrightarrow> x \<in> set s"
  by (induction s) (auto simp: sublist_Cons_right)

lemma formatMessage_plain:
  assumes "no_markup s"
  shows "formatMessage s = entity_escaped s"
proof -
  let ?h = "entity_escaped s"
  have star: "set (js ''**'') \<inter> entity_units = {}" "js ''**'' \<noteq> []"
    by (simp_all add: js_def entity_units_def)
  have b: "\<not> sublist (js ''**'') ?h"
    using assms sublist_entity_escaped star by (auto simp: no_markup_def)
  have i: "\<not> sublist [underscore] ?h"
    using assms mem_escaped delims_not_entity(5) by (auto simp: no_markup_def single_sublist)
  have l: "\<not> has_link ?h"
    using assms has_link_escaped by (auto simp: no_markup_def)
  have c: "\<not> sublist [backtick] ?h"
    using assms mem_escaped delims_not_entity(6) by (auto simp: no_markup_def single_sublist)
  have x: "\<not> sublist [box_char, box_char, box_char] ?h"
    using assms sublist_entity_escaped[of "[box_char, box_char, box_char]" s] delims_not_entity(7)
    by (auto simp: no_markup_def)
  show ?thesis
    unfolding formatMessage_def escape_html_entity bold_def italic_def inline_code_def
    using b i l c x
    by (simp add: delimited_id links_id separator_lines_id)
qed

lemma no_lt_escaped: "lt \<notin> set (escape_html s) \<and> gt \<notin> set (escape_html s)"
  unfolding escape_html_entity entity_escaped_def
  by (induction s) (auto simp: entity_def js_def lt_def gt_def amp_def)

text \<open>
  C8. \<^verbatim>\<open>formatMessage\<close> escapes before it substitutes: the three replacements of
  \<^verbatim>\<open>&\<close>, \<^verbatim>\<open><\<close> and \<^verbatim>\<open>>\<close> amount to replacing each of them by its entity, the markup
  rules run on the escaped text, and the escaped text has no \<^verbatim>\<open><\<close> (and no \<^verbatim>\<open>>\<close>)
  left. For an input with none of the markup delimiters (\<^verbatim>\<open>**\<close>, \<^verbatim>\<open>_\<close>, a bracket
  followed later by \<^verbatim>\<open>](\<close> and a closing parenthesis, a backtick, three box
  characters in a row) the result is exactly the entity-escaped input, so it contains no
  \<^verbatim>\<open><\<close> at all.
\<close>

theorem formatMessage_escapes_first:
  "escape_html text = entity_escaped text
   \<and> formatMessage text
       = separator_lines (inline_code (links (italic (bold (entity_escaped text)))))
   \<and> lt \<notin> set (escape_html text) \<and> gt \<notin> set (escape_html text)
   \<and> (no_markup text \<longrightarrow>
        formatMessage text = entity_escaped text \<and> lt \<notin> set (formatMessage text))"
proof -
  have "no_markup text \<Longrightarrow> lt \<notin> set (formatMessage text)"
    using formatMessage_plain[of "text"] no_lt_escaped[of "text"]
    by (simp add: escape_html_entity)
  then show ?thesis
    using formatMessage_plain[of "text"] no_lt_escaped[of "text"]
    by (auto simp: formatMessage_def escape_html_entity)
qed

theorem formatMessage_escapes_first_witness:
  "no_markup (js ''1 < 2 & 3 > 2'')
   \<and> formatMessage (js ''1 < 2 & 3 > 2'') = js ''1 &lt; 2 &amp; 3 &gt; 2''"
proof -
  have h: "no_markup (js ''1 < 2 & 3 > 2'')"
    by (simp add: no_markup_def js_def sublist_Cons_right underscore_def backtick_def
        lbracket_def box_char_def)
  have e: "entity_escaped (js ''1 < 2 & 3 > 2'') = js ''1 &lt; 2 &amp; 3 &gt; 2''"
    by (simp add: entity_escaped_def entity_def js_def amp_def lt_def gt_def)
  from h formatMessage_escapes_first[of "js ''1 < 2 & 3 > 2''"]
  have "formatMessage (js ''1 < 2 & 3 > 2'') = entity_escaped (js ''1 < 2 & 3 > 2'')"
    by blast
  with h e show ?thesis by simp
qed

section \<open>The operations in closed form\<close>

text \<open>
  Reading a property throws for \<^verbatim>\<open>null\<close> and \<^verbatim>\<open>undefined\<close> only, whatever the name: once
  one read of \<^verbatim>\<open>data\<close> has succeeded, every later read succeeds. The statements of a
  \<^verbatim>\<open>try\<close> block then throw at the first of them, before anything is assigned, or reach
  the update of the hint line, which is the only one left that can throw.
\<close>

lemma get_Inl_iff: "get data k = Inl e \<longleftrightarrow> data = Undefined \<or> data = Null"
  by (cases data; cases e) auto

lemma get_prop_of: "get data k = Inr v \<Longrightarrow> get data k' = Inr (prop_of data k')"
  by (cases data) (auto simp: prop_of_def)

lemma renders_iff: "renders data \<longleftrightarrow> (\<exists>r. get data (js ''response'') = Inr (Str r))"
  by (auto simp: renders_def split: sum.splits jsval.splits)

lemma updateHint_cases:
  "updateHint s = Inl s
   \<or> updateHint s = Inr (s\<lparr> inputHint := Some (currentHints s, currentState s, currentLang s) \<rparr>)"
  by (auto simp: updateHint_def split: sum.splits option.splits)

lemma updateLangUI_cases:
  "updateLangUI s = Inl (s\<lparr> langUI := Some (currentLang s) \<rparr>)
   \<or> updateLangUI s = Inr (s\<lparr> langUI := Some (currentLang s),
         inputHint := Some (currentHints s, currentState s, currentLang s) \<rparr>)"
  using updateHint_cases[of "s\<lparr> langUI := Some (currentLang s) \<rparr>"]
  by (auto simp: updateLangUI_def)

lemma receive_chat_ok:
  assumes "get data (js ''response'') = Inr (Str r)"
  shows "receive_chat data s = updateHint (shown_chat data r s)"
  using assms get_prop_of[OF assms, of "js ''state''"] get_prop_of[OF assms, of "js ''lang''"]
  by (simp add: receive_chat_def shown_chat_def addMessage_def scrollToBottom_def optional_field_def)

lemma addMessage_val_fail: "(\<And>r. v \<noteq> Str r) \<Longrightarrow> addMessage_val role v s = Inl TypeError"
  by (cases v) auto

lemma receive_chat_fail: "\<not> renders data \<Longrightarrow> receive_chat data s = Inl s"
proof (cases "get data (js ''response'')")
  case (Inl a)
  then show ?thesis by (simp add: receive_chat_def)
next
  case (Inr v)
  assume "\<not> renders data"
  with Inr have "\<And>r. v \<noteq> Str r" by (auto simp: renders_iff)
  then have "addMessage_val Bot v s = Inl TypeError" by (rule addMessage_val_fail)
  with Inr show ?thesis by (simp add: receive_chat_def)
qed

lemma receive_init_ok:
  assumes "get data (js ''response'') = Inr (Str r)"
  shows "receive_init data s
    = updateHint (shown_init data r s)"
  using assms get_prop_of[OF assms, of "js ''state''"] get_prop_of[OF assms, of "js ''lang''"]
    get_prop_of[OF assms, of "js ''hints''"]
  by (simp add: receive_init_def shown_init_def addMessage_def scrollToBottom_def
      optional_field_def updateLangUI_def)

lemma receive_init_fail: "\<not> renders data \<Longrightarrow> receive_init data s = Inl s"
proof (cases "get data (js ''response'')")
  case (Inl a)
  then show ?thesis by (simp add: receive_init_def)
next
  case (Inr v)
  assume "\<not> renders data"
  with Inr have "\<And>r. v \<noteq> Str r" by (auto simp: renders_iff)
  then have "addMessage_val Bot v s = Inl TypeError" by (rule addMessage_val_fail)
  with Inr show ?thesis by (simp add: receive_init_def)
qed


lemma sendMessage_catch_eq:
  "sendMessage_catch s = s\<lparr> chatMessages :=
        remove_indicator (indicator_in (browser s)) (chatMessages s)
        @ [Message Bot (formatMessage (chat_error s)) 0],
      scrolls := Suc (scrolls s) \<rparr>"
  by (simp add: sendMessage_catch_def removeTyping_def addMessage_def scrollToBottom_def
      chat_error_def)

lemma initChat_catch_eq:
  "initChat_catch s = s\<lparr> chatMessages :=
        remove_indicator (indicator_in (browser s)) (chatMessages s)
        @ [Message Bot (formatMessage (connect_error s)) 0],
      scrolls := Suc (scrolls s) \<rparr>"
  by (simp add: initChat_catch_def removeTyping_def addMessage_def scrollToBottom_def
      connect_error_def)

lemma sendMessage_go:
  assumes "\<not> isProcessing s" "trim (userInput_value s) \<noteq> []"
  shows "sendMessage s = s\<lparr> isProcessing := True, btnSend_disabled := True, userInput_value := [],
      chatMessages := chatMessages s
        @ [Message User (formatMessage (trim (userInput_value s))) 0, TypingIndicator],
      scrolls := Suc (Suc (scrolls s)),
      requests := requests s @ [chat_request (trim (userInput_value s)) (currentLang s)],
      awaiting := (awaiting s)(Chat := Suc (awaiting s Chat)) \<rparr>"
  using assms
  by (simp add: sendMessage_def Let_def addMessage_def showTyping_def fetch_def scrollToBottom_def)

lemma sendMessage_skip: "isProcessing s \<or> trim (userInput_value s) = [] \<Longrightarrow> sendMessage s = s"
  by (auto simp: sendMessage_def Let_def)

text \<open>The four ways through the continuation of \<^verbatim>\<open>sendMessage\<close>.\<close>

lemma sendMessage_resume_cases:
  "(out = Rejected \<or> out = NotJson) \<and> chat_catches out s
     \<and> sendMessage_resume out s
       = (sendMessage_catch s)\<lparr> isProcessing := False, btnSend_disabled := False, focused := True \<rparr>
   \<or> (\<exists>data. out = Parsed data \<and> \<not> renders data) \<and> chat_catches out s
     \<and> sendMessage_resume out s
       = (sendMessage_catch (removeTyping s))\<lparr> isProcessing := False, btnSend_disabled := False,
            focused := True \<rparr>
   \<or> (\<exists>data r. out = Parsed data \<and> get data (js ''response'') = Inr (Str r)
        \<and> chat_catches out s
        \<and> sendMessage_resume out s
          = (sendMessage_catch (shown_chat data r (removeTyping s)))\<lparr> isProcessing := False,
               btnSend_disabled := False, focused := True \<rparr>)
   \<or> (\<exists>data r. out = Parsed data \<and> get data (js ''response'') = Inr (Str r)
        \<and> \<not> chat_catches out s
        \<and> sendMessage_resume out s
          = (shown_chat data r (removeTyping s))\<lparr> inputHint :=
               Some (currentHints s, prop_of data (js ''state''),
                     optional_field (js ''lang'') data (currentLang s)),
               isProcessing := False, btnSend_disabled := False, focused := True \<rparr>)"
proof (cases out)
  case Rejected
  then show ?thesis by (simp add: sendMessage_resume_def chat_catches_def)
next
  case NotJson
  then show ?thesis by (simp add: sendMessage_resume_def chat_catches_def)
next
  case (Parsed data)
  show ?thesis
  proof (cases "renders data")
    case False
    with Parsed show ?thesis
      by (simp add: sendMessage_resume_def chat_catches_def receive_chat_fail)
  next
    case True
    then obtain r where r: "get data (js ''response'') = Inr (Str r)"
      by (auto simp: renders_iff)
    let ?x = "shown_chat data r (removeTyping s)"
    from updateHint_cases[of ?x] show ?thesis
    proof
      assume "updateHint ?x = Inl ?x"
      with Parsed r show ?thesis
        by (simp add: sendMessage_resume_def chat_catches_def receive_chat_ok)
    next
      assume "updateHint ?x = Inr (?x\<lparr> inputHint := Some (currentHints ?x, currentState ?x, currentLang ?x) \<rparr>)"
      with Parsed r show ?thesis
        by (simp add: sendMessage_resume_def chat_catches_def receive_chat_ok)
          (simp add: shown_chat_def addMessage_def scrollToBottom_def removeTyping_def)
    qed
  qed
qed

lemma initChat_resume_cases:
  "(out = Rejected \<or> out = NotJson) \<and> init_catches out s
     \<and> initChat_resume out s = initChat_catch s
   \<or> (\<exists>data. out = Parsed data \<and> \<not> renders data) \<and> init_catches out s
     \<and> initChat_resume out s = initChat_catch (removeTyping s)
   \<or> (\<exists>data r. out = Parsed data \<and> get data (js ''response'') = Inr (Str r)
        \<and> init_catches out s
        \<and> initChat_resume out s = initChat_catch (shown_init data r (removeTyping s)))
   \<or> (\<exists>data r. out = Parsed data \<and> get data (js ''response'') = Inr (Str r)
        \<and> \<not> init_catches out s
        \<and> initChat_resume out s
          = (shown_init data r (removeTyping s))\<lparr> inputHint :=
               Some (optional_field (js ''hints'') data (currentHints s),
                     prop_of data (js ''state''),
                     optional_field (js ''lang'') data (currentLang s)) \<rparr>)"
proof (cases out)
  case Rejected
  then show ?thesis by (simp add: initChat_resume_def init_catches_def)
next
  case NotJson
  then show ?thesis by (simp add: initChat_resume_def init_catches_def)
next
  case (Parsed data)
  show ?thesis
  proof (cases "renders data")
    case False
    with Parsed show ?thesis
      by (simp add: initChat_resume_def init_catches_def receive_init_fail)
  next
    case True
    then obtain r where r: "get data (js ''response'') = Inr (Str r)"
      by (auto simp: renders_iff)
    let ?x = "shown_init data r (removeTyping s)"
    from updateHint_cases[of ?x] show ?thesis
    proof
      assume "updateHint ?x = Inl ?x"
      with Parsed r show ?thesis
        by (simp add: initChat_resume_def init_catches_def receive_init_ok)
    next
      assume "updateHint ?x = Inr (?x\<lparr> inputHint := Some (currentHints ?x, currentState ?x, currentLang ?x) \<rparr>)"
      with Parsed r show ?thesis
        by (simp add: initChat_resume_def init_catches_def receive_init_ok)
          (simp add: shown_init_def addMessage_def scrollToBottom_def removeTyping_def)
    qed
  qed
qed

lemma resetChat_resume_cases:
  "failed out \<and> resetChat_resume out s = s
   \<or> (\<exists>data r. out = Parsed data \<and> get data (js ''response'') = Inr (Str r)
        \<and> (resetChat_resume out s = shown_init data r s
           \<or> resetChat_resume out s
             = (shown_init data r s)\<lparr> inputHint :=
               Some (optional_field (js ''hints'') data (currentHints s),
                     prop_of data (js ''state''),
                     optional_field (js ''lang'') data (currentLang s)) \<rparr>))"
proof (cases out)
  case Rejected
  then show ?thesis by (simp add: resetChat_resume_def)
next
  case NotJson
  then show ?thesis by (simp add: resetChat_resume_def)
next
  case (Parsed data)
  show ?thesis
  proof (cases "renders data")
    case False
    with Parsed show ?thesis by (simp add: resetChat_resume_def receive_init_fail)
  next
    case True
    then obtain r where r: "get data (js ''response'') = Inr (Str r)"
      by (auto simp: renders_iff)
    let ?x = "shown_init data r s"
    from updateHint_cases[of ?x] show ?thesis
    proof
      assume "updateHint ?x = Inl ?x"
      with Parsed r show ?thesis by (simp add: resetChat_resume_def receive_init_ok)
    next
      assume "updateHint ?x = Inr (?x\<lparr> inputHint := Some (currentHints ?x, currentState ?x, currentLang ?x) \<rparr>)"
      with Parsed r show ?thesis
        by (simp add: resetChat_resume_def receive_init_ok)
          (simp add: shown_init_def addMessage_def scrollToBottom_def)
    qed
  qed
qed

lemma resetChat_cases:
  "resetChat s = Inl (s\<lparr> chatMessages := [], currentState := Str (js ''greeting'') \<rparr>)
   \<or> (\<exists>lang. resetChat s = Inr (s\<lparr> chatMessages := [], currentState := Str (js ''greeting''),
         requests := requests s @ [init_request lang],
         awaiting := (awaiting s)(Reset := Suc (awaiting s Reset)) \<rparr>))"
  by (cases "to_string (browser s) (currentLang s)") (auto simp: resetChat_def fetch_def Let_def)

text \<open>
  The continuation of \<^verbatim>\<open>toggleLanguage\<close>: nothing happens, or the language and the hints
  are assigned and then \<^verbatim>\<open>updateLangUI\<close> throws, \<^verbatim>\<open>resetChat\<close> throws, or the chat is
  reset and \<^verbatim>\<open>/api/init\<close> fetched.
\<close>

lemma toggleLanguage_resume_cases:
  "toggleLanguage_resume out s = s
     \<and> (out = Rejected \<or> out = NotJson \<or> out = Parsed Null \<or> out = Parsed Undefined)
   \<or> (\<exists>data hint st chat rs aw.
        out = Parsed data \<and> data \<noteq> Null \<and> data \<noteq> Undefined
        \<and> (st = currentState s \<or> st = Str (js ''greeting''))
        \<and> (rs = [] \<and> aw = awaiting s
           \<or> (\<exists>lang. rs = [init_request lang]) \<and> aw = (awaiting s)(Reset := Suc (awaiting s Reset)))
        \<and> toggleLanguage_resume out s
          = s\<lparr> currentLang := prop_of data (js ''lang''),
               currentHints := (if truthy (prop_of data (js ''hints''))
                                then prop_of data (js ''hints'') else Obj []),
               langUI := Some (prop_of data (js ''lang'')),
               inputHint := hint, currentState := st, chatMessages := chat,
               requests := requests s @ rs, awaiting := aw \<rparr>)"
proof (cases out)
  case Rejected
  then show ?thesis by (simp add: toggleLanguage_resume_def)
next
  case NotJson
  then show ?thesis by (simp add: toggleLanguage_resume_def)
next
  case (Parsed data)
  show ?thesis
  proof (cases "data = Null \<or> data = Undefined")
    case True
    with Parsed show ?thesis by (auto simp: toggleLanguage_resume_def)
  next
    case False
    then obtain v where v: "get data (js ''lang'') = Inr v" by (cases data) auto
    note l = get_prop_of[OF v, of "js ''lang''"] and h = get_prop_of[OF v, of "js ''hints''"]
    let ?s2 = "s\<lparr> currentLang := prop_of data (js ''lang''),
               currentHints := (if truthy (prop_of data (js ''hints''))
                                then prop_of data (js ''hints'') else Obj []) \<rparr>"
    have t: "toggleLanguage_resume out s =
       (case updateLangUI ?s2 of Inl s3 \<Rightarrow> s3
        | Inr s3 \<Rightarrow> (case resetChat s3 of Inl s4 \<Rightarrow> s4 | Inr s4 \<Rightarrow> s4))"
      using Parsed l h by (simp add: toggleLanguage_resume_def)
    from updateLangUI_cases[of ?s2] show ?thesis
    proof
      assume "updateLangUI ?s2 = Inl (?s2\<lparr> langUI := Some (currentLang ?s2) \<rparr>)"
      with t have "toggleLanguage_resume out s
          = s\<lparr> currentLang := prop_of data (js ''lang''),
               currentHints := (if truthy (prop_of data (js ''hints''))
                                then prop_of data (js ''hints'') else Obj []),
               langUI := Some (prop_of data (js ''lang'')),
               inputHint := inputHint s, currentState := currentState s,
               chatMessages := chatMessages s,
               requests := requests s @ [], awaiting := awaiting s \<rparr>"
        by simp
      with Parsed False show ?thesis by blast
    next
      let ?s3 = "?s2\<lparr> langUI := Some (currentLang ?s2),
         inputHint := Some (currentHints ?s2, currentState ?s2, currentLang ?s2) \<rparr>"
      assume u: "updateLangUI ?s2 = Inr ?s3"
      from resetChat_cases[of ?s3] show ?thesis
      proof
        assume "resetChat ?s3 = Inl (?s3\<lparr> chatMessages := [], currentState := Str (js ''greeting'') \<rparr>)"
        with t u have "toggleLanguage_resume out s
          = s\<lparr> currentLang := prop_of data (js ''lang''),
               currentHints := (if truthy (prop_of data (js ''hints''))
                                then prop_of data (js ''hints'') else Obj []),
               langUI := Some (prop_of data (js ''lang'')),
               inputHint := Some (currentHints ?s2, currentState ?s2, currentLang ?s2),
               currentState := Str (js ''greeting''), chatMessages := [],
               requests := requests s @ [], awaiting := awaiting s \<rparr>"
          by simp
        with Parsed False show ?thesis by blast
      next
        assume "\<exists>lang. resetChat ?s3 = Inr (?s3\<lparr> chatMessages := [],
           currentState := Str (js ''greeting''),
           requests := requests ?s3 @ [init_request lang],
           awaiting := (awaiting ?s3)(Reset := Suc (awaiting ?s3 Reset)) \<rparr>)"
        then obtain lang where "resetChat ?s3 = Inr (?s3\<lparr> chatMessages := [],
           currentState := Str (js ''greeting''),
           requests := requests ?s3 @ [init_request lang],
           awaiting := (awaiting ?s3)(Reset := Suc (awaiting ?s3 Reset)) \<rparr>)" by blast
        with t u have "toggleLanguage_resume out s
          = s\<lparr> currentLang := prop_of data (js ''lang''),
               currentHints := (if truthy (prop_of data (js ''hints''))
                                then prop_of data (js ''hints'') else Obj []),
               langUI := Some (prop_of data (js ''lang'')),
               inputHint := Some (currentHints ?s2, currentState ?s2, currentLang ?s2),
               currentState := Str (js ''greeting''), chatMessages := [],
               requests := requests s @ [init_request lang],
               awaiting := (awaiting s)(Reset := Suc (awaiting s Reset)) \<rparr>"
          by simp
        with Parsed False show ?thesis by blast
      qed
    qed
  qed
qed

lemma initChat_cases:
  "initChat s = initChat_catch (showTyping s)
   \<or> (\<exists>lang. initChat s = s\<lparr> chatMessages := chatMessages s @ [TypingIndicator],
        scrolls := Suc (scrolls s),
        requests := requests s @ [init_request lang],
        awaiting := (awaiting s)(Init := Suc (awaiting s Init)) \<rparr>)"
  by (auto simp: initChat_def showTyping_def fetch_def scrollToBottom_def Let_def split: sum.splits)

lemma toggleLanguage_eq:
  "toggleLanguage s = s\<lparr>
      requests := requests s @ [set_lang_request (if currentLang s = Str (js ''my'') then js ''en'' else js ''my'')],
      awaiting := (awaiting s)(SetLang := Suc (awaiting s SetLang)) \<rparr>"
  by (simp add: toggleLanguage_def fetch_def)

lemma downloadPDF_eq:
  "downloadPDF s = s\<lparr> requests := requests s @ [pdf_request],
      awaiting := (awaiting s)(Pdf := Suc (awaiting s Pdf)) \<rparr>"
  by (simp add: downloadPDF_def fetch_def)

lemma downloadPDF_resume_eq:
  "downloadPDF_resume out s = s\<lparr> chatMessages := chatMessages s
      @ [Message Bot (formatMessage (case out of PdfSaved \<Rightarrow> pdf_done_msg | PdfFailed \<Rightarrow> pdf_failed_msg)) 0],
      scrolls := Suc (scrolls s) \<rparr>"
  by (cases out) (simp_all add: downloadPDF_resume_def addMessage_def scrollToBottom_def)

lemma run_snoc: "run (es @ [e]) s = step e (run es s)"
  by (induction es arbitrary: s) auto

section \<open>Examples, messages and frames\<close>

text \<open>The definitions that evaluate an example page.\<close>

lemmas page_defs = init_def start_def example_browser_def initChat_def createStars_def
      showTyping_def fetch_def init_request_def scrollToBottom_def
      settle_def initChat_resume_def initChat_catch_def receive_init_def removeTyping_def
      addMessage_def updateLangUI_def updateHint_def sendMessage_def trim_def is_white_space_def
      js_def chat_request_def
      sendMessage_resume_def sendMessage_catch_def receive_chat_def
      toggleLanguage_def set_lang_request_def toggleLanguage_resume_def resetChat_def
      downloadPDF_def pdf_request_def Let_def

lemma busy_page_processing: "isProcessing busy_page"
  by (simp add: busy_page_def page_defs)

text \<open>The bubble of the text with the injected id, and what the example browser finds in it.\<close>

lemma formatMessage_injected_text:
  "formatMessage injected_text
   = js ''<a href='' @ [dquote, dquote] @ js '' id='' @ [dquote] @ js ''typingIndicator'' @ [dquote]
     @ js '' style='' @ [dquote] @ js ''color: var(--accent-gold); text-decoration: underline;''
     @ [dquote] @ js ''>x</a>''"
  by code_simp

lemma indicator_in_injected_text: "indicator_in link_browser (formatMessage injected_text) 0"
  unfolding formatMessage_injected_text by (simp add: link_browser_def) code_simp

lemma trim_injected_text: "trim injected_text = injected_text"
  by code_simp

lemma error_messages_plain:
  "formatMessage err_connect_en = err_connect_en"
  "formatMessage err_connect_my = err_connect_my"
  "formatMessage err_chat_en = err_chat_en"
  "formatMessage err_chat_my = err_chat_my"
  by code_simp+

lemma error_plain:
  "formatMessage (connect_error s) = connect_error s"
  "formatMessage (chat_error s) = chat_error s"
  by (simp_all add: connect_error_def chat_error_def error_messages_plain)

lemma messages_append: "messages (xs @ ys) = messages xs @ messages ys"
  by (simp add: messages_def List.map_filter_def)

lemma messages_simps:
  "messages [] = []"
  "messages (Message r h k # ns) = (r, h) # messages ns"
  "messages (TypingIndicator # ns) = messages ns"
  by (simp_all add: messages_def List.map_filter_def)

lemma messages_remove_indicator: "messages (remove_indicator c ns) = messages ns"
  by (induction c ns rule: remove_indicator.induct) (auto simp: messages_simps)

lemma remove_indicator_free:
  "indicator_free c ns \<Longrightarrow> remove_indicator c ns = remove1 TypingIndicator ns"
  by (induction c ns rule: remove_indicator.induct) auto

lemma indicator_free_remove1:
  "indicator_free c ns \<Longrightarrow> indicator_free c (remove1 TypingIndicator ns)"
  by (induction c ns rule: indicator_free.induct) auto

lemma indicator_free_append:
  "indicator_free c (xs @ ys) \<longleftrightarrow> indicator_free c xs \<and> indicator_free c ys"
  by (induction c xs rule: indicator_free.induct) auto

lemma count_remove1: "count_list (remove1 x xs) x = count_list xs x - 1"
  by (induction xs) auto

text \<open>What the continuations leave alone.\<close>

lemma initChat_resume_frame:
  "isProcessing (initChat_resume out s) = isProcessing s
   \<and> awaiting (initChat_resume out s) = awaiting s
   \<and> requests (initChat_resume out s) = requests s
   \<and> userInput_value (initChat_resume out s) = userInput_value s
   \<and> btnSend_disabled (initChat_resume out s) = btnSend_disabled s
   \<and> browser (initChat_resume out s) = browser s"
  using initChat_resume_cases[of out s]
  by (auto simp: initChat_catch_eq shown_init_def addMessage_def scrollToBottom_def removeTyping_def)

lemma resetChat_resume_frame:
  "isProcessing (resetChat_resume out s) = isProcessing s
   \<and> awaiting (resetChat_resume out s) = awaiting s
   \<and> requests (resetChat_resume out s) = requests s
   \<and> userInput_value (resetChat_resume out s) = userInput_value s
   \<and> btnSend_disabled (resetChat_resume out s) = btnSend_disabled s
   \<and> browser (resetChat_resume out s) = browser s"
  using resetChat_resume_cases[of out s]
  by (auto simp: shown_init_def addMessage_def scrollToBottom_def)

lemma sendMessage_resume_frame:
  "isProcessing (sendMessage_resume out s) = False
   \<and> awaiting (sendMessage_resume out s) = awaiting s
   \<and> requests (sendMessage_resume out s) = requests s
   \<and> userInput_value (sendMessage_resume out s) = userInput_value s
   \<and> btnSend_disabled (sendMessage_resume out s) = False
   \<and> currentHints (sendMessage_resume out s) = currentHints s
   \<and> browser (sendMessage_resume out s) = browser s"
  using sendMessage_resume_cases[of out s]
  by (auto simp: sendMessage_catch_eq shown_chat_def addMessage_def scrollToBottom_def removeTyping_def)

lemma toggleLanguage_resume_frame:
  "isProcessing (toggleLanguage_resume out s) = isProcessing s
   \<and> awaiting (toggleLanguage_resume out s) Chat = awaiting s Chat
   \<and> userInput_value (toggleLanguage_resume out s) = userInput_value s
   \<and> btnSend_disabled (toggleLanguage_resume out s) = btnSend_disabled s
   \<and> browser (toggleLanguage_resume out s) = browser s"
  using toggleLanguage_resume_cases[of out s]
  by auto

lemma initChat_frame:
  "isProcessing (initChat s) = isProcessing s
   \<and> awaiting (initChat s) Chat = awaiting s Chat
   \<and> currentState (initChat s) = currentState s
   \<and> currentLang (initChat s) = currentLang s
   \<and> currentHints (initChat s) = currentHints s
   \<and> browser (initChat s) = browser s"
  using initChat_cases[of s]
  by (auto simp: initChat_catch_eq showTyping_def scrollToBottom_def)

section \<open>Invariants of the event loop\<close>

text \<open>At most one chat continuation is pending, and \<^verbatim>\<open>isProcessing\<close> tells whether one is.\<close>

lemma chat_pending_step:
  assumes "awaiting s Chat \<le> 1" "isProcessing s \<longleftrightarrow> awaiting s Chat = 1"
  shows "awaiting (step e s) Chat \<le> 1 \<and> (isProcessing (step e s) \<longleftrightarrow> awaiting (step e s) Chat = 1)"
proof (cases e)
  case DOMContentLoaded
  with assms show ?thesis by (simp add: initChat_frame createStars_def)
next
  case (UserInput v)
  with assms show ?thesis by simp
next
  case Call_sendMessage
  show ?thesis
  proof (cases "isProcessing s \<or> trim (userInput_value s) = []")
    case True
    with assms Call_sendMessage show ?thesis by (simp add: sendMessage_skip)
  next
    case False
    with assms Call_sendMessage show ?thesis by (simp add: sendMessage_go)
  qed
next
  case Call_toggleLanguage
  with assms show ?thesis by (simp add: toggleLanguage_eq)
next
  case Call_downloadPDF
  with assms show ?thesis by (simp add: downloadPDF_eq)
next
  case Call_toggleDevModal
  with assms show ?thesis by (simp add: toggleDevModal_def)
next
  case (Response_init out)
  with assms show ?thesis by (simp add: initChat_resume_frame settle_def)
next
  case (Response_chat out)
  with assms show ?thesis by (auto simp: sendMessage_resume_frame settle_def)
next
  case (Response_set_lang out)
  with assms show ?thesis by (simp add: toggleLanguage_resume_frame settle_def)
next
  case (Response_reset out)
  with assms show ?thesis by (simp add: resetChat_resume_frame settle_def)
next
  case (Response_pdf out)
  with assms show ?thesis by (simp add: downloadPDF_resume_eq settle_def)
qed

lemma chat_pending_run:
  "awaiting (run evs (init b)) Chat \<le> 1
   \<and> (isProcessing (run evs (init b)) \<longleftrightarrow> awaiting (run evs (init b)) Chat = 1)"
proof (induction evs rule: rev_induct)
  case Nil
  show ?case by (simp add: init_def)
next
  case (snoc e evs)
  then show ?case using chat_pending_step[of "run evs (init b)" e] by (simp add: run_snoc)
qed

text \<open>An event issues at most one request, to one of the four endpoints.\<close>

lemma step_requests:
  "requests (step e s) = requests s
   \<or> (\<exists>r. requests (step e s) = requests s @ [r] \<and> endpoint r \<in> set endpoints)"
proof (cases e)
  case DOMContentLoaded
  from initChat_cases[of "createStars s"] DOMContentLoaded show ?thesis
    by (auto simp: initChat_catch_eq showTyping_def scrollToBottom_def createStars_def
        init_request_def endpoint_def endpoints_def)
next
  case (UserInput v)
  then show ?thesis by simp
next
  case Call_sendMessage
  show ?thesis
  proof (cases "isProcessing s \<or> trim (userInput_value s) = []")
    case True
    with Call_sendMessage show ?thesis by (simp add: sendMessage_skip)
  next
    case False
    with Call_sendMessage show ?thesis
      by (simp add: sendMessage_go chat_request_def endpoint_def endpoints_def)
  qed
next
  case Call_toggleLanguage
  then show ?thesis
    by (simp add: toggleLanguage_eq set_lang_request_def endpoint_def endpoints_def)
next
  case Call_downloadPDF
  then show ?thesis by (simp add: downloadPDF_eq pdf_request_def endpoint_def endpoints_def)
next
  case Call_toggleDevModal
  then show ?thesis by (simp add: toggleDevModal_def)
next
  case (Response_init out)
  then show ?thesis by (simp add: initChat_resume_frame settle_def)
next
  case (Response_chat out)
  then show ?thesis by (simp add: sendMessage_resume_frame settle_def)
next
  case (Response_set_lang out)
  from toggleLanguage_resume_cases[of out "settle SetLang s"] Response_set_lang show ?thesis
    by (auto simp: settle_def init_request_def endpoint_def endpoints_def)
next
  case (Response_reset out)
  then show ?thesis by (simp add: resetChat_resume_frame settle_def)
next
  case (Response_pdf out)
  then show ?thesis by (simp add: downloadPDF_resume_eq settle_def)
qed

lemma run_requests:
  "\<forall>r \<in> set (requests (run evs (init b))). endpoint r \<in> set endpoints"
proof (induction evs rule: rev_induct)
  case Nil
  show ?case by (simp add: init_def)
next
  case (snoc e evs)
  from step_requests[of e "run evs (init b)"] show ?case
  proof
    assume "requests (step e (run evs (init b))) = requests (run evs (init b))"
    with snoc show ?thesis by (simp add: run_snoc)
  next
    assume "\<exists>r. requests (step e (run evs (init b))) = requests (run evs (init b)) @ [r]
      \<and> endpoint r \<in> set endpoints"
    then obtain r where "requests (step e (run evs (init b))) = requests (run evs (init b)) @ [r]"
      "endpoint r \<in> set endpoints" by blast
    with snoc show ?thesis by (simp add: run_snoc)
  qed
qed

text \<open>The fields of a delivered response.\<close>

lemma get_field_of:
  "get data k' = Inr v \<Longrightarrow> delivered e = Some (op, data) \<Longrightarrow> field_of k e = Some (prop_of data k)"
  using get_prop_of[of data k' v k] by (simp add: field_of_def)

lemma get_state_field:
  "get data k' = Inr v \<Longrightarrow> delivered e = Some (op, data) \<Longrightarrow> op \<noteq> SetLang
   \<Longrightarrow> state_field e = Some (prop_of data (js ''state''))"
  using get_prop_of[of data k' v "js ''state''"] by (simp add: state_field_def)

text \<open>What the continuations do to the three variables.\<close>

lemma sendMessage_resume_variables:
  "(failed out \<longrightarrow> currentState (sendMessage_resume out s) = currentState s
        \<and> currentLang (sendMessage_resume out s) = currentLang s)
   \<and> (renders data \<longrightarrow>
        currentState (sendMessage_resume (Parsed data) s) = prop_of data (js ''state'')
      \<and> currentLang (sendMessage_resume (Parsed data) s)
          = optional_field (js ''lang'') data (currentLang s))"
  using sendMessage_resume_cases[of out s] sendMessage_resume_cases[of "Parsed data" s]
  by (auto simp: renders_iff sendMessage_catch_eq shown_chat_def addMessage_def scrollToBottom_def
      removeTyping_def)

lemma initChat_resume_variables:
  "(failed out \<longrightarrow> currentState (initChat_resume out s) = currentState s
        \<and> currentLang (initChat_resume out s) = currentLang s
        \<and> currentHints (initChat_resume out s) = currentHints s)
   \<and> (renders data \<longrightarrow>
        currentState (initChat_resume (Parsed data) s) = prop_of data (js ''state'')
      \<and> currentLang (initChat_resume (Parsed data) s)
          = optional_field (js ''lang'') data (currentLang s)
      \<and> currentHints (initChat_resume (Parsed data) s)
          = optional_field (js ''hints'') data (currentHints s))"
  using initChat_resume_cases[of out s] initChat_resume_cases[of "Parsed data" s]
  by (auto simp: renders_iff initChat_catch_eq shown_init_def addMessage_def scrollToBottom_def
      removeTyping_def)

lemma resetChat_resume_variables:
  "(failed out \<longrightarrow> resetChat_resume out s = s)
   \<and> (renders data \<longrightarrow>
        currentState (resetChat_resume (Parsed data) s) = prop_of data (js ''state'')
      \<and> currentLang (resetChat_resume (Parsed data) s)
          = optional_field (js ''lang'') data (currentLang s)
      \<and> currentHints (resetChat_resume (Parsed data) s)
          = optional_field (js ''hints'') data (currentHints s))"
  using resetChat_resume_cases[of out s] resetChat_resume_cases[of "Parsed data" s]
  by (auto simp: renders_iff shown_init_def addMessage_def scrollToBottom_def)

lemma outcome_cases:
  "failed out \<or> (\<exists>data r. out = Parsed data \<and> get data (js ''response'') = Inr (Str r))"
  by (cases out) (auto simp: renders_iff)

text \<open>What one event does to the three variables.\<close>

lemma step_variables:
  "(currentState (step e s) = currentState s
      \<or> (\<exists>data. delivered e = Some (SetLang, data)) \<and> currentState (step e s) = Str (js ''greeting'')
      \<or> state_field e = Some (currentState (step e s)))
   \<and> (currentLang (step e s) = currentLang s
      \<or> field_of (js ''lang'') e = Some (currentLang (step e s)))
   \<and> (currentHints (step e s) = currentHints s
      \<or> (\<exists>data. delivered e = Some (SetLang, data)) \<and> currentHints (step e s) = Obj []
      \<or> field_of (js ''hints'') e = Some (currentHints (step e s)))"
proof (cases e)
  case DOMContentLoaded
  then show ?thesis by (simp add: initChat_frame createStars_def)
next
  case (UserInput v)
  then show ?thesis by simp
next
  case Call_sendMessage
  show ?thesis
  proof (cases "isProcessing s \<or> trim (userInput_value s) = []")
    case True
    with Call_sendMessage show ?thesis by (simp add: sendMessage_skip)
  next
    case False
    with Call_sendMessage show ?thesis by (simp add: sendMessage_go)
  qed
next
  case Call_toggleLanguage
  then show ?thesis by (simp add: toggleLanguage_eq)
next
  case Call_downloadPDF
  then show ?thesis by (simp add: downloadPDF_eq)
next
  case Call_toggleDevModal
  then show ?thesis by (simp add: toggleDevModal_def)
next
  case (Response_init out)
  from outcome_cases[of out] show ?thesis
  proof
    assume "failed out"
    with initChat_resume_variables[of out "settle Init s"] Response_init show ?thesis
      by (auto simp: settle_def)
  next
    assume "\<exists>data r. out = Parsed data \<and> get data (js ''response'') = Inr (Str r)"
    then obtain data r where d: "out = Parsed data" "get data (js ''response'') = Inr (Str r)"
      by blast
    then have rd: "renders data" by (auto simp: renders_iff)
    have del: "delivered e = Some (Init, data)" using Response_init d by simp
    from get_field_of[OF d(2) del] get_state_field[OF d(2) del] Response_init d rd
      initChat_resume_variables[of out "settle Init s" data]
    show ?thesis by (simp add: settle_def optional_field_def)
  qed
next
  case (Response_chat out)
  from outcome_cases[of out] show ?thesis
  proof
    assume "failed out"
    with sendMessage_resume_variables[of out "settle Chat s"] Response_chat show ?thesis
      by (auto simp: settle_def sendMessage_resume_frame)
  next
    assume "\<exists>data r. out = Parsed data \<and> get data (js ''response'') = Inr (Str r)"
    then obtain data r where d: "out = Parsed data" "get data (js ''response'') = Inr (Str r)"
      by blast
    then have rd: "renders data" by (auto simp: renders_iff)
    have del: "delivered e = Some (Chat, data)" using Response_chat d by simp
    from get_field_of[OF d(2) del] get_state_field[OF d(2) del] Response_chat d rd
      sendMessage_resume_variables[of out "settle Chat s" data]
    show ?thesis by (simp add: settle_def optional_field_def sendMessage_resume_frame)
  qed
next
  case (Response_set_lang out)
  from toggleLanguage_resume_cases[of out "settle SetLang s"] show ?thesis
  proof
    assume "toggleLanguage_resume out (settle SetLang s) = settle SetLang s
      \<and> (out = Rejected \<or> out = NotJson \<or> out = Parsed Null \<or> out = Parsed Undefined)"
    with Response_set_lang show ?thesis by (simp add: settle_def)
  next
    assume "\<exists>data hint st chat rs aw.
        out = Parsed data \<and> data \<noteq> Null \<and> data \<noteq> Undefined
        \<and> (st = currentState (settle SetLang s) \<or> st = Str (js ''greeting''))
        \<and> (rs = [] \<and> aw = awaiting (settle SetLang s)
           \<or> (\<exists>lang. rs = [init_request lang])
             \<and> aw = (awaiting (settle SetLang s))(Reset := Suc (awaiting (settle SetLang s) Reset)))
        \<and> toggleLanguage_resume out (settle SetLang s)
          = (settle SetLang s)\<lparr> currentLang := prop_of data (js ''lang''),
               currentHints := (if truthy (prop_of data (js ''hints''))
                                then prop_of data (js ''hints'') else Obj []),
               langUI := Some (prop_of data (js ''lang'')),
               inputHint := hint, currentState := st, chatMessages := chat,
               requests := requests (settle SetLang s) @ rs, awaiting := aw \<rparr>"
    then obtain data hint st chat rs aw where d: "out = Parsed data" "data \<noteq> Null"
      "data \<noteq> Undefined" "st = currentState (settle SetLang s) \<or> st = Str (js ''greeting'')"
      and t: "toggleLanguage_resume out (settle SetLang s)
          = (settle SetLang s)\<lparr> currentLang := prop_of data (js ''lang''),
               currentHints := (if truthy (prop_of data (js ''hints''))
                                then prop_of data (js ''hints'') else Obj []),
               langUI := Some (prop_of data (js ''lang'')),
               inputHint := hint, currentState := st, chatMessages := chat,
               requests := requests (settle SetLang s) @ rs, awaiting := aw \<rparr>"
      by blast
    from d obtain v where v: "get data (js ''lang'') = Inr v" by (cases data) auto
    have del: "delivered e = Some (SetLang, data)" using Response_set_lang d by simp
    from get_field_of[OF v del] Response_set_lang d del t show ?thesis
      by (auto simp: settle_def)
  qed
next
  case (Response_reset out)
  from outcome_cases[of out] show ?thesis
  proof
    assume "failed out"
    with resetChat_resume_variables[of out "settle Reset s"] Response_reset show ?thesis
      by (auto simp: settle_def)
  next
    assume "\<exists>data r. out = Parsed data \<and> get data (js ''response'') = Inr (Str r)"
    then obtain data r where d: "out = Parsed data" "get data (js ''response'') = Inr (Str r)"
      by blast
    then have rd: "renders data" by (auto simp: renders_iff)
    have del: "delivered e = Some (Reset, data)" using Response_reset d by simp
    from get_field_of[OF d(2) del] get_state_field[OF d(2) del] Response_reset d rd
      resetChat_resume_variables[of out "settle Reset s" data]
    show ?thesis by (simp add: settle_def optional_field_def)
  qed
next
  case (Response_pdf out)
  then show ?thesis by (simp add: downloadPDF_resume_eq settle_def)
qed

lemma step_undelivered:
  assumes "delivered e = None"
  shows "currentState (step e s) = currentState s \<and> currentLang (step e s) = currentLang s
     \<and> currentHints (step e s) = currentHints s"
  using step_variables[of e s] assms by (simp add: state_field_def field_of_def)

lemma step_isProcessing:
  "isProcessing (step e s) = isProcessing s \<or> e = Call_sendMessage \<or> (\<exists>out. e = Response_chat out)"
proof (cases e)
  case DOMContentLoaded
  then show ?thesis by (simp add: initChat_frame createStars_def)
next
  case (Response_init out)
  then show ?thesis by (simp add: initChat_resume_frame settle_def)
next
  case (Response_set_lang out)
  then show ?thesis by (simp add: toggleLanguage_resume_frame settle_def)
next
  case (Response_reset out)
  then show ?thesis by (simp add: resetChat_resume_frame settle_def)
qed (simp_all add: toggleLanguage_eq downloadPDF_eq toggleDevModal_def downloadPDF_resume_eq settle_def)

lemma served_states_snoc:
  "served_states (evs @ [e]) = served_states evs @ (case state_field e of None \<Rightarrow> [] | Some v \<Rightarrow> [v])"
  by (simp add: served_states_def List.map_filter_def split: option.splits)

lemma run_currentState:
  "currentState (run evs (init b)) \<in> set (Str (js ''greeting'') # served_states evs)"
proof (induction evs rule: rev_induct)
  case Nil
  show ?case by (simp add: init_def)
next
  case (snoc e evs)
  from step_variables[of e "run evs (init b)"] snoc show ?case
    by (auto simp: run_snoc served_states_snoc)
qed

lemma toggleLanguage_resume_state:
  "currentState (toggleLanguage_resume out s) = currentState s
   \<or> currentState (toggleLanguage_resume out s) = Str (js ''greeting'')"
  using toggleLanguage_resume_cases[of out s] by auto

section \<open>The chat after a continuation\<close>

text \<open>What the continuations of \<^verbatim>\<open>sendMessage\<close> and \<^verbatim>\<open>initChat\<close> add to the chat.\<close>

lemma error_plain_if:
  "formatMessage (if c then err_chat_en else err_chat_my) = (if c then err_chat_en else err_chat_my)"
  "formatMessage (if c then err_connect_en else err_connect_my)
     = (if c then err_connect_en else err_connect_my)"
  by (simp_all add: error_messages_plain)

lemma chat_error_cong: "currentLang p = currentLang q \<Longrightarrow> chat_error p = chat_error q"
  by (simp add: chat_error_def)

lemma connect_error_cong: "currentLang p = currentLang q \<Longrightarrow> connect_error p = connect_error q"
  by (simp add: connect_error_def)

lemma sendMessage_resume_messages:
  "messages (chatMessages (sendMessage_resume out s))
     = messages (chatMessages s) @ reply_bubble out
       @ (if chat_catches out s then [(Bot, chat_error (sendMessage_resume out s))] else [])"
proof -
  from sendMessage_resume_cases[of out s] consider
    (early) "out = Rejected \<or> out = NotJson" "chat_catches out s"
      "sendMessage_resume out s
       = (sendMessage_catch s)\<lparr> isProcessing := False, btnSend_disabled := False, focused := True \<rparr>"
  | (unread) data where "out = Parsed data" "\<not> renders data" "chat_catches out s"
      "sendMessage_resume out s
       = (sendMessage_catch (removeTyping s))\<lparr> isProcessing := False, btnSend_disabled := False,
            focused := True \<rparr>"
  | (late) data r where "out = Parsed data" "get data (js ''response'') = Inr (Str r)"
      "chat_catches out s"
      "sendMessage_resume out s
          = (sendMessage_catch (shown_chat data r (removeTyping s)))\<lparr> isProcessing := False,
               btnSend_disabled := False, focused := True \<rparr>"
  | (shown) data r where "out = Parsed data" "get data (js ''response'') = Inr (Str r)"
      "\<not> chat_catches out s"
      "sendMessage_resume out s
          = (shown_chat data r (removeTyping s))\<lparr> inputHint :=
               Some (currentHints s, prop_of data (js ''state''),
                     optional_field (js ''lang'') data (currentLang s)),
               isProcessing := False, btnSend_disabled := False, focused := True \<rparr>"
    by blast
  then show ?thesis
  proof cases
  case early
  note a = early(1,2) and r = early(3)
  from a r show ?thesis
    by (auto simp: sendMessage_catch_eq messages_append messages_simps
        messages_remove_indicator error_plain_if chat_error_def connect_error_def reply_bubble_def)
next
  case (unread data)
  note a = unread(1,2,3) and r = unread(4)
  have b: "reply_bubble out = []"
    using a by (auto simp: reply_bubble_def renders_iff split: sum.splits jsval.splits)
  show ?thesis
    using a(3) r b by (simp add: sendMessage_catch_eq messages_append messages_simps
        messages_remove_indicator error_plain_if chat_error_def connect_error_def removeTyping_def)
next
  case (late data r)
  note a = late(1,2,3) and r = late(4)
  show ?thesis
    using a r by (simp add: sendMessage_catch_eq messages_append messages_simps
        messages_remove_indicator error_plain_if chat_error_def connect_error_def reply_bubble_def)
      (simp add: shown_chat_def addMessage_def scrollToBottom_def removeTyping_def
        messages_append messages_simps messages_remove_indicator)
next
  case (shown data r)
  note a = shown(1,2,3) and r = shown(4)
  show ?thesis
    using a r by (simp add: reply_bubble_def shown_chat_def addMessage_def scrollToBottom_def
        removeTyping_def messages_append messages_simps messages_remove_indicator)
qed
qed

lemma initChat_resume_messages:
  "messages (chatMessages (initChat_resume out s))
     = messages (chatMessages s) @ reply_bubble out
       @ (if init_catches out s then [(Bot, connect_error (initChat_resume out s))] else [])"
proof -
  from initChat_resume_cases[of out s] consider
    (early) "out = Rejected \<or> out = NotJson" "init_catches out s"
      "initChat_resume out s = initChat_catch s"
  | (unread) data where "out = Parsed data" "\<not> renders data" "init_catches out s"
      "initChat_resume out s = initChat_catch (removeTyping s)"
  | (late) data r where "out = Parsed data" "get data (js ''response'') = Inr (Str r)"
      "init_catches out s"
      "initChat_resume out s = initChat_catch (shown_init data r (removeTyping s))"
  | (shown) data r where "out = Parsed data" "get data (js ''response'') = Inr (Str r)"
      "\<not> init_catches out s"
      "initChat_resume out s
          = (shown_init data r (removeTyping s))\<lparr> inputHint :=
               Some (optional_field (js ''hints'') data (currentHints s),
                     prop_of data (js ''state''),
                     optional_field (js ''lang'') data (currentLang s)) \<rparr>"
    by blast
  then show ?thesis
  proof cases
  case early
  note a = early(1,2) and r = early(3)
  from a r show ?thesis
    by (auto simp: initChat_catch_eq messages_append messages_simps
        messages_remove_indicator error_plain_if chat_error_def connect_error_def reply_bubble_def)
next
  case (unread data)
  note a = unread(1,2,3) and r = unread(4)
  have b: "reply_bubble out = []"
    using a by (auto simp: reply_bubble_def renders_iff split: sum.splits jsval.splits)
  show ?thesis
    using a(3) r b by (simp add: initChat_catch_eq messages_append messages_simps
        messages_remove_indicator error_plain_if chat_error_def connect_error_def removeTyping_def)
next
  case (late data r)
  note a = late(1,2,3) and r = late(4)
  show ?thesis
    using a r by (simp add: initChat_catch_eq messages_append messages_simps
        messages_remove_indicator error_plain_if chat_error_def connect_error_def reply_bubble_def)
      (simp add: shown_init_def addMessage_def scrollToBottom_def removeTyping_def
        messages_append messages_simps messages_remove_indicator)
next
  case (shown data r)
  note a = shown(1,2,3) and r = shown(4)
  show ?thesis
    using a r by (simp add: reply_bubble_def shown_init_def addMessage_def scrollToBottom_def
        removeTyping_def messages_append messages_simps messages_remove_indicator)
qed
qed

lemma failed_catches:
  "failed out \<Longrightarrow> chat_catches out s \<and> init_catches out s \<and> reply_bubble out = []"
  by (cases out)
    (auto simp: chat_catches_def init_catches_def reply_bubble_def receive_chat_fail
      receive_init_fail renders_iff split: sum.splits jsval.splits)

text \<open>
  \<^verbatim>\<open>toggleLanguage\<close> resets the state exactly when its continuation reaches \<^verbatim>\<open>resetChat\<close>.
\<close>

lemma toggleLanguage_resume_currentState:
  "currentState (toggleLanguage_resume out s)
     = (if reaches_resetChat out s then Str (js ''greeting'') else currentState s)"
proof (cases out)
  case Rejected
  then show ?thesis by (simp add: toggleLanguage_resume_def reaches_resetChat_def)
next
  case NotJson
  then show ?thesis by (simp add: toggleLanguage_resume_def reaches_resetChat_def)
next
  case (Parsed data)
  show ?thesis
  proof (cases "data = Null \<or> data = Undefined")
    case True
    with Parsed show ?thesis by (auto simp: toggleLanguage_resume_def reaches_resetChat_def)
  next
    case False
    then obtain v where v: "get data (js ''lang'') = Inr v" by (cases data) auto
    note l = get_prop_of[OF v, of "js ''lang''"] and h = get_prop_of[OF v, of "js ''hints''"]
    let ?s2 = "s\<lparr> currentLang := prop_of data (js ''lang''),
               currentHints := (if truthy (prop_of data (js ''hints''))
                                then prop_of data (js ''hints'') else Obj []) \<rparr>"
    have t: "toggleLanguage_resume out s =
       (case updateLangUI ?s2 of Inl s3 \<Rightarrow> s3
        | Inr s3 \<Rightarrow> (case resetChat s3 of Inl s4 \<Rightarrow> s4 | Inr s4 \<Rightarrow> s4))"
      using Parsed l h by (simp add: toggleLanguage_resume_def)
    have r: "reaches_resetChat out s \<longleftrightarrow> \<not> isl (updateLangUI ?s2)"
      using Parsed False by (simp add: reaches_resetChat_def)
    from updateLangUI_cases[of ?s2] show ?thesis
    proof
      assume u: "updateLangUI ?s2 = Inl (?s2\<lparr> langUI := Some (currentLang ?s2) \<rparr>)"
      with t r show ?thesis by simp
    next
      let ?s3 = "?s2\<lparr> langUI := Some (currentLang ?s2),
         inputHint := Some (currentHints ?s2, currentState ?s2, currentLang ?s2) \<rparr>"
      assume u: "updateLangUI ?s2 = Inr ?s3"
      from resetChat_cases[of ?s3] t r u show ?thesis by auto
    qed
  qed
qed

text \<open>
  A request that fails before its response is shown: \<^verbatim>\<open>removeTyping\<close> runs once in the
  handler, and once before when the body was parsed; then the error bubble is appended.
\<close>

lemma sendMessage_resume_failed:
  assumes "failed out"
  shows "sendMessage_resume out s
    = s\<lparr> chatMessages :=
          (remove_indicator (indicator_in (browser s))
             ^^ (case out of Parsed data \<Rightarrow> 2 | _ \<Rightarrow> 1)) (chatMessages s)
          @ [Message Bot (chat_error s) 0],
        scrolls := Suc (scrolls s),
        isProcessing := False, btnSend_disabled := False, focused := True \<rparr>"
proof (cases out)
  case Rejected
  then show ?thesis
    by (simp add: sendMessage_resume_def sendMessage_catch_eq error_plain)
next
  case NotJson
  then show ?thesis
    by (simp add: sendMessage_resume_def sendMessage_catch_eq error_plain)
next
  case (Parsed data)
  with assms have "\<not> renders data" by simp
  with Parsed show ?thesis
    by (simp add: sendMessage_resume_def receive_chat_fail sendMessage_catch_eq error_plain
        removeTyping_def numeral_2_eq_2)
      (simp add: chat_error_def)
qed

lemma initChat_resume_failed:
  assumes "failed out"
  shows "initChat_resume out s
    = s\<lparr> chatMessages :=
          (remove_indicator (indicator_in (browser s))
             ^^ (case out of Parsed data \<Rightarrow> 2 | _ \<Rightarrow> 1)) (chatMessages s)
          @ [Message Bot (connect_error s) 0],
        scrolls := Suc (scrolls s) \<rparr>"
proof (cases out)
  case Rejected
  then show ?thesis
    by (simp add: initChat_resume_def initChat_catch_eq error_plain)
next
  case NotJson
  then show ?thesis
    by (simp add: initChat_resume_def initChat_catch_eq error_plain)
next
  case (Parsed data)
  with assms have "\<not> renders data" by simp
  with Parsed show ?thesis
    by (simp add: initChat_resume_def receive_init_fail initChat_catch_eq error_plain
        removeTyping_def numeral_2_eq_2)
      (simp add: connect_error_def)
qed

section \<open>The claims\<close>

subsection \<open>Sending a message\<close>




text \<open>
  C10. When the trimmed input is empty, \<^verbatim>\<open>sendMessage\<close> returns the page as it found
  it: no request, no message, and every variable, the input field included, unchanged.
\<close>

theorem sendMessage_blank_noop:
  "trim (userInput_value s) = [] \<Longrightarrow> sendMessage s = s \<and> step Call_sendMessage s = s"
  by (simp add: sendMessage_skip)

text \<open>The theorem at an input of a space, a tab and a line feed.\<close>

theorem sendMessage_blank_noop_witness:
  "trim (userInput_value blank_page) = []
   \<and> userInput_value blank_page = [0x20, 0x09, 0x0A]
   \<and> sendMessage blank_page = blank_page \<and> step Call_sendMessage blank_page = blank_page"
proof -
  have a: "trim (userInput_value blank_page) = []"
    by (simp add: blank_page_def start_def init_def trim_def is_white_space_def)
  have b: "userInput_value blank_page = [0x20, 0x09, 0x0A]"
    by (simp add: blank_page_def start_def init_def)
  from sendMessage_blank_noop[OF a] a b show ?thesis by simp
qed

text \<open>
  C5. While \<^verbatim>\<open>isProcessing\<close> is true a call of \<^verbatim>\<open>sendMessage\<close> returns the page
  unchanged. On every page the event loop can reach from the initial one, in whatever
  browser, at most one continuation of \<^verbatim>\<open>sendMessage\<close> waits for its response, and
  \<^verbatim>\<open>isProcessing\<close> is true exactly while one does.
\<close>

theorem chat_requests_sequential:
  "(isProcessing s \<longrightarrow> sendMessage s = s \<and> step Call_sendMessage s = s)
   \<and> awaiting (run evs (init b)) Chat \<le> 1
   \<and> (isProcessing (run evs (init b)) \<longleftrightarrow> awaiting (run evs (init b)) Chat = 1)"
  using chat_pending_run[of evs b] by (simp add: sendMessage_skip)

text \<open>The theorem at the page where a second input is typed during a request.\<close>

theorem chat_requests_sequential_witness:
  "isProcessing busy_page \<and> sendMessage busy_page = busy_page
   \<and> awaiting busy_page Chat = 1"
proof -
  from chat_requests_sequential[of busy_page
      "[UserInput (js ''hi''), Call_sendMessage, UserInput (js ''yo'')]" example_browser]
    busy_page_processing
  show ?thesis by (simp add: busy_page_def start_def)
qed

subsection \<open>Requests\<close>

text \<open>
  C4. Whatever the events and the browser, every request the page has issued goes to
  one of the four endpoints: GET \<^verbatim>\<open>/api/init\<close>, POST \<^verbatim>\<open>/api/chat\<close>, POST \<^verbatim>\<open>/api/set_lang\<close> and
  POST \<^verbatim>\<open>/api/generate-pdf\<close>.
\<close>

theorem only_four_endpoints:
  "(\<forall>r \<in> set (requests (run evs (init b))). endpoint r \<in> set endpoints)
   \<and> endpoints = [(GET, js ''/api/init''), (POST, js ''/api/chat''),
                  (POST, js ''/api/set_lang''), (POST, js ''/api/generate-pdf'')]"
  using run_requests[of evs b] by (simp add: endpoints_def)

text \<open>The theorem at a run that reaches each of the four endpoints once.\<close>

theorem only_four_endpoints_witness:
  "map endpoint (requests (run endpoint_tour (init example_browser)))
     = [(GET, js ''/api/init''), (POST, js ''/api/chat''), (POST, js ''/api/set_lang''),
        (POST, js ''/api/generate-pdf'')]
   \<and> endpoint (last (requests (run endpoint_tour (init example_browser)))) \<in> set endpoints"
proof -
  have a: "map endpoint (requests (run endpoint_tour (init example_browser)))
     = [(GET, js ''/api/init''), (POST, js ''/api/chat''), (POST, js ''/api/set_lang''),
        (POST, js ''/api/generate-pdf'')]"
    by (simp add: endpoint_tour_def endpoint_def page_defs)
  then have "requests (run endpoint_tour (init example_browser)) \<noteq> []" by auto
  then have "last (requests (run endpoint_tour (init example_browser)))
      \<in> set (requests (run endpoint_tour (init example_browser)))"
    by simp
  with only_four_endpoints[of endpoint_tour example_browser] a show ?thesis by blast
qed

subsection \<open>Failures\<close>

text \<open>
  C6. The continuation of \<^verbatim>\<open>initChat\<close>, and of \<^verbatim>\<open>sendMessage\<close>, adds to the messages of the
  chat the bubble of the response, when there is one to show, and after it the error
  message in the current language exactly when it ends in its \<^verbatim>\<open>catch\<close> block. When the
  request fails before anything is shown (the \<^verbatim>\<open>fetch\<close> is rejected, the body is not JSON,
  or its \<^verbatim>\<open>response\<close> is not a string) it ends there and adds exactly one bubble, the
  error message: the chat is the old one after the runs of \<^verbatim>\<open>removeTyping\<close>, one in the
  handler and one before when the body was parsed, followed by that bubble. No
  continuation issues a request, whatever the outcome: the log of requests stays as it
  is and no operation gains a pending continuation. An \<^verbatim>\<open>initChat\<close> that cannot build its
  URL appends the error bubble at once and issues nothing.
\<close>

theorem no_retry_on_failure:
  "messages (chatMessages (initChat_resume out s))
     = messages (chatMessages s) @ reply_bubble out
       @ (if init_catches out s then [(Bot, connect_error (initChat_resume out s))] else [])
   \<and> messages (chatMessages (sendMessage_resume out s))
     = messages (chatMessages s) @ reply_bubble out
       @ (if chat_catches out s then [(Bot, chat_error (sendMessage_resume out s))] else [])
   \<and> (failed out \<longrightarrow>
        init_catches out s \<and> chat_catches out s \<and> reply_bubble out = []
      \<and> messages (chatMessages (initChat_resume out s))
          = messages (chatMessages s) @ [(Bot, connect_error s)]
      \<and> messages (chatMessages (sendMessage_resume out s))
          = messages (chatMessages s) @ [(Bot, chat_error s)]
      \<and> chatMessages (initChat_resume out s)
          = (remove_indicator (indicator_in (browser s))
               ^^ (case out of Parsed data \<Rightarrow> 2 | _ \<Rightarrow> 1)) (chatMessages s)
            @ [Message Bot (connect_error s) 0]
      \<and> chatMessages (sendMessage_resume out s)
          = (remove_indicator (indicator_in (browser s))
               ^^ (case out of Parsed data \<Rightarrow> 2 | _ \<Rightarrow> 1)) (chatMessages s)
            @ [Message Bot (chat_error s) 0])
   \<and> requests (initChat_resume out s) = requests s
   \<and> awaiting (initChat_resume out s) = awaiting s
   \<and> requests (sendMessage_resume out s) = requests s
   \<and> awaiting (sendMessage_resume out s) = awaiting s
   \<and> requests (step (Response_init out) s) = requests s
   \<and> requests (step (Response_chat out) s) = requests s
   \<and> (\<forall>op. awaiting (step (Response_init out) s) op \<le> awaiting s op)
   \<and> (\<forall>op. awaiting (step (Response_chat out) s) op \<le> awaiting s op)
   \<and> (isl (to_string (browser s) (currentLang s)) \<longrightarrow>
        messages (chatMessages (initChat s)) = messages (chatMessages s) @ [(Bot, connect_error s)]
      \<and> requests (initChat s) = requests s \<and> awaiting (initChat s) = awaiting s)"
proof -
  have f: "failed out \<Longrightarrow>
        init_catches out s \<and> chat_catches out s \<and> reply_bubble out = []
      \<and> messages (chatMessages (initChat_resume out s))
          = messages (chatMessages s) @ [(Bot, connect_error s)]
      \<and> messages (chatMessages (sendMessage_resume out s))
          = messages (chatMessages s) @ [(Bot, chat_error s)]
      \<and> chatMessages (initChat_resume out s)
          = (remove_indicator (indicator_in (browser s))
               ^^ (case out of Parsed data \<Rightarrow> 2 | _ \<Rightarrow> 1)) (chatMessages s)
            @ [Message Bot (connect_error s) 0]
      \<and> chatMessages (sendMessage_resume out s)
          = (remove_indicator (indicator_in (browser s))
               ^^ (case out of Parsed data \<Rightarrow> 2 | _ \<Rightarrow> 1)) (chatMessages s)
            @ [Message Bot (chat_error s) 0]"
  proof -
    assume fo: "failed out"
    note c = failed_catches[OF fo, of s]
    have "currentLang (initChat_resume out s) = currentLang s"
      "currentLang (sendMessage_resume out s) = currentLang s"
      using fo initChat_resume_variables[of out s] sendMessage_resume_variables[of out s]
      by simp_all
    then have "connect_error (initChat_resume out s) = connect_error s"
      "chat_error (sendMessage_resume out s) = chat_error s"
      by (simp_all add: connect_error_def chat_error_def)
    with c initChat_resume_messages[of out s] sendMessage_resume_messages[of out s]
    have m: "init_catches out s \<and> chat_catches out s \<and> reply_bubble out = []
      \<and> messages (chatMessages (initChat_resume out s))
          = messages (chatMessages s) @ [(Bot, connect_error s)]
      \<and> messages (chatMessages (sendMessage_resume out s))
          = messages (chatMessages s) @ [(Bot, chat_error s)]"
      by simp
    have "chatMessages (initChat_resume out s)
          = (remove_indicator (indicator_in (browser s))
               ^^ (case out of Parsed data \<Rightarrow> 2 | _ \<Rightarrow> 1)) (chatMessages s)
            @ [Message Bot (connect_error s) 0]"
      "chatMessages (sendMessage_resume out s)
          = (remove_indicator (indicator_in (browser s))
               ^^ (case out of Parsed data \<Rightarrow> 2 | _ \<Rightarrow> 1)) (chatMessages s)
            @ [Message Bot (chat_error s) 0]"
      by (simp_all add: initChat_resume_failed[OF fo] sendMessage_resume_failed[OF fo])
    with m show ?thesis by blast
  qed
  have 3: "requests (step (Response_init out) s) = requests s"
    "requests (step (Response_chat out) s) = requests s"
    by (simp_all add: initChat_resume_frame sendMessage_resume_frame settle_def)
  have 4: "\<And>op. awaiting (step (Response_init out) s) op \<le> awaiting s op"
    "\<And>op. awaiting (step (Response_chat out) s) op \<le> awaiting s op"
    by (simp_all add: initChat_resume_frame sendMessage_resume_frame settle_def)
  have 5: "isl (to_string (browser s) (currentLang s)) \<Longrightarrow>
        messages (chatMessages (initChat s)) = messages (chatMessages s) @ [(Bot, connect_error s)]
      \<and> requests (initChat s) = requests s \<and> awaiting (initChat s) = awaiting s"
    by (cases "to_string (browser s) (currentLang s)")
      (simp_all add: initChat_def showTyping_def scrollToBottom_def initChat_catch_eq
        messages_append messages_simps messages_remove_indicator error_plain,
        simp add: connect_error_def)
  have 6: "requests (initChat_resume out s) = requests s"
    "awaiting (initChat_resume out s) = awaiting s"
    "requests (sendMessage_resume out s) = requests s"
    "awaiting (sendMessage_resume out s) = awaiting s"
    by (simp_all add: initChat_resume_frame sendMessage_resume_frame)
  from f 3 4 5 6 initChat_resume_messages[of out s] sendMessage_resume_messages[of out s]
  show ?thesis by blast
qed

text \<open>
  The theorem at the page that waits for \<^verbatim>\<open>/api/init\<close>: with a rejected request, and with
  a response that is shown before the hint line throws.
\<close>

theorem no_retry_on_failure_witness:
  "failed Rejected
   \<and> chatMessages loading_page = [TypingIndicator]
   \<and> messages (chatMessages (initChat_resume Rejected loading_page)) = [(Bot, err_connect_my)]
   \<and> requests (step (Response_init Rejected) loading_page) = requests loading_page
   \<and> \<not> failed (Parsed late_reply)
   \<and> init_catches (Parsed late_reply) loading_page
   \<and> messages (chatMessages (initChat_resume (Parsed late_reply) loading_page))
       = [(Bot, js ''ok''), (Bot, err_connect_my)]
   \<and> requests (initChat_resume (Parsed late_reply) loading_page) = requests loading_page"
proof -
  have a: "failed Rejected" by simp
  have b: "chatMessages loading_page = [TypingIndicator]"
    "currentLang loading_page = Str (js ''my'')"
    by (simp_all add: loading_page_def page_defs)
  from no_retry_on_failure[of Rejected loading_page] a have
    1: "messages (chatMessages (initChat_resume Rejected loading_page))
          = messages (chatMessages loading_page) @ [(Bot, connect_error loading_page)]"
    "requests (step (Response_init Rejected) loading_page) = requests loading_page"
    by blast+
  have c: "\<not> failed (Parsed late_reply)" by (simp add: renders_def late_reply_def js_def)
  have d: "init_catches (Parsed late_reply) loading_page"
    by (simp add: init_catches_def loading_page_def late_reply_def page_defs)
  have e: "reply_bubble (Parsed late_reply) = [(Bot, js ''ok'')]"
  proof -
    have "formatMessage (js ''ok'') = js ''ok''" by code_simp
    then show ?thesis by (simp add: reply_bubble_def late_reply_def js_def)
  qed
  have f: "currentLang (initChat_resume (Parsed late_reply) loading_page) = Str (js ''my'')"
    by (simp add: loading_page_def late_reply_def page_defs)
  from no_retry_on_failure[of "Parsed late_reply" loading_page] have
    2: "messages (chatMessages (initChat_resume (Parsed late_reply) loading_page))
     = messages (chatMessages loading_page) @ reply_bubble (Parsed late_reply)
       @ (if init_catches (Parsed late_reply) loading_page
          then [(Bot, connect_error (initChat_resume (Parsed late_reply) loading_page))] else [])"
    "requests (initChat_resume (Parsed late_reply) loading_page) = requests loading_page"
    by blast+
  from 2(1) b d e f have
    3: "messages (chatMessages (initChat_resume (Parsed late_reply) loading_page))
       = [(Bot, js ''ok''), (Bot, err_connect_my)]"
    by (simp add: messages_simps connect_error_def js_def)
  from 1 a b have "messages (chatMessages (initChat_resume Rejected loading_page))
      = [(Bot, err_connect_my)]"
    by (simp add: messages_simps connect_error_def js_def)
  with a b 1(2) c d 3 2(2) show ?thesis by simp
qed

text \<open>
  C9 (as amended). A chat request that fails before its response is shown (the \<^verbatim>\<open>fetch\<close>
  is rejected, the body is not JSON, or its \<^verbatim>\<open>response\<close> is not a string) leaves
  \<^verbatim>\<open>currentState\<close>, \<^verbatim>\<open>currentLang\<close> and \<^verbatim>\<open>currentHints\<close> as the continuation finds them. A call
  of \<^verbatim>\<open>sendMessage\<close> followed by such a failure leaves the page as before the call except
  for the input field, which is empty and has the focus, the send button, which is
  enabled, three calls of \<^verbatim>\<open>scrollToBottom\<close>, the log, which has gained the request, and
  the chat: the user bubble and the typing indicator are appended, \<^verbatim>\<open>removeTyping\<close> runs
  once or twice, and the error bubble is appended. The messages of the chat are the
  old ones, the user bubble and the error bubble; when no bubble holds an element with
  the id of the typing indicator, the chat has no more typing indicators than before.
\<close>

theorem sendMessage_failure_frame:
  assumes "failed out" and "\<not> isProcessing s" and "trim (userInput_value s) = msg" and "msg \<noteq> []"
  shows "currentState (sendMessage_resume out page) = currentState page
       \<and> currentLang (sendMessage_resume out page) = currentLang page
       \<and> currentHints (sendMessage_resume out page) = currentHints page
       \<and> step (Response_chat out) (step Call_sendMessage s)
           = s\<lparr> userInput_value := [], btnSend_disabled := False, focused := True,
                scrolls := scrolls s + 3,
                chatMessages := chatMessages (step (Response_chat out) (step Call_sendMessage s)),
                requests := requests s @ [chat_request msg (currentLang s)] \<rparr>
       \<and> chatMessages (step (Response_chat out) (step Call_sendMessage s))
           = (remove_indicator (indicator_in (browser s))
                ^^ (case out of Parsed data \<Rightarrow> 2 | _ \<Rightarrow> 1))
               (chatMessages s @ [Message User (formatMessage msg) 0, TypingIndicator])
             @ [Message Bot (chat_error s) 0]
       \<and> messages (chatMessages (step (Response_chat out) (step Call_sendMessage s)))
           = messages (chatMessages s) @ [(User, formatMessage msg), (Bot, chat_error s)]
       \<and> (indicator_free (indicator_in (browser s))
             (chatMessages s @ [Message User (formatMessage msg) 0]) \<longrightarrow>
           count_list (chatMessages (step (Response_chat out) (step Call_sendMessage s)))
             TypingIndicator
           \<le> count_list (chatMessages s) TypingIndicator)"
proof -
  let ?c = "indicator_in (browser s)"
  let ?chat = "chatMessages s @ [Message User (formatMessage msg) 0, TypingIndicator]"
  have 1: "currentState (sendMessage_resume out page) = currentState page
       \<and> currentLang (sendMessage_resume out page) = currentLang page
       \<and> currentHints (sendMessage_resume out page) = currentHints page"
    using assms(1) sendMessage_resume_variables[of out page] sendMessage_resume_frame[of out page]
    by simp
  define s1 where "s1 = settle Chat (step Call_sendMessage s)"
  have s1: "s1 = s\<lparr> isProcessing := True, btnSend_disabled := True, userInput_value := [],
      chatMessages := ?chat, scrolls := Suc (Suc (scrolls s)),
      requests := requests s @ [chat_request msg (currentLang s)] \<rparr>"
    using assms sendMessage_go[of s] by (simp add: s1_def settle_def)
  have st: "step (Response_chat out) (step Call_sendMessage s) = sendMessage_resume out s1"
    using assms sendMessage_go[of s] by (simp add: s1_def)
  define r where "r = sendMessage_resume out s1"
  have c: "r = s1\<lparr> chatMessages :=
          (remove_indicator ?c ^^ (case out of Parsed data \<Rightarrow> 2 | _ \<Rightarrow> 1)) ?chat
          @ [Message Bot (chat_error s) 0],
        scrolls := Suc (scrolls s1),
        isProcessing := False, btnSend_disabled := False, focused := True \<rparr>"
  proof (cases out)
    case Rejected
    then show ?thesis
      unfolding r_def
      by (simp add: sendMessage_resume_def sendMessage_catch_eq error_plain)
        (simp add: s1 chat_error_def)
  next
    case NotJson
    then show ?thesis
      unfolding r_def
      by (simp add: sendMessage_resume_def sendMessage_catch_eq error_plain)
        (simp add: s1 chat_error_def)
  next
    case (Parsed data)
    with assms(1) have "\<not> renders data" by simp
    with Parsed show ?thesis
      unfolding r_def
      by (simp add: sendMessage_resume_def receive_chat_fail sendMessage_catch_eq error_plain
          removeTyping_def numeral_2_eq_2)
        (simp add: s1 chat_error_def)
  qed
  have "r = s\<lparr> userInput_value := [], btnSend_disabled := False, focused := True,
                scrolls := scrolls s + 3,
                chatMessages := chatMessages r,
                requests := requests s @ [chat_request msg (currentLang s)] \<rparr>"
    using assms(2) by (intro client.equality) (simp_all add: c s1)
  then have 2: "sendMessage_resume out s1
           = s\<lparr> userInput_value := [], btnSend_disabled := False, focused := True,
                scrolls := scrolls s + 3,
                chatMessages := chatMessages (sendMessage_resume out s1),
                requests := requests s @ [chat_request msg (currentLang s)] \<rparr>"
    unfolding r_def .
  have 3: "chatMessages (sendMessage_resume out s1)
           = (remove_indicator ?c ^^ (case out of Parsed data \<Rightarrow> 2 | _ \<Rightarrow> 1)) ?chat
             @ [Message Bot (chat_error s) 0]"
    using c unfolding r_def by simp
  have m: "\<And>n. messages ((remove_indicator ?c ^^ n) ?chat) = messages ?chat"
  proof -
    fix n show "messages ((remove_indicator ?c ^^ n) ?chat) = messages ?chat"
      by (induction n) (simp_all add: messages_remove_indicator)
  qed
  have 4: "messages (chatMessages (sendMessage_resume out s1))
           = messages (chatMessages s) @ [(User, formatMessage msg), (Bot, chat_error s)]"
    by (simp add: 3 messages_append m) (simp add: messages_simps)
  have 5: "indicator_free ?c (chatMessages s @ [Message User (formatMessage msg) 0]) \<Longrightarrow>
           count_list (chatMessages (sendMessage_resume out s1)) TypingIndicator
           \<le> count_list (chatMessages s) TypingIndicator"
  proof -
    assume "indicator_free ?c (chatMessages s @ [Message User (formatMessage msg) 0])"
    then have f: "indicator_free ?c ?chat" by (simp add: indicator_free_append)
    then have f1: "indicator_free ?c (remove1 TypingIndicator ?chat)"
      by (rule indicator_free_remove1)
    have r1: "remove_indicator ?c ?chat = remove1 TypingIndicator ?chat"
      using f by (rule remove_indicator_free)
    have r2: "remove_indicator ?c (remove1 TypingIndicator ?chat)
        = remove1 TypingIndicator (remove1 TypingIndicator ?chat)"
      using f1 by (rule remove_indicator_free)
    have k: "count_list ?chat TypingIndicator = Suc (count_list (chatMessages s) TypingIndicator)"
      by simp
    from 3 show ?thesis
      by (cases out) (simp_all add: numeral_2_eq_2 r1 r2 count_remove1 k del: remove1_append)
  qed
  from 1 2 3 4 5 show ?thesis unfolding st by blast
qed

text \<open>
  The theorem at the page where the user has typed \<^verbatim>\<open>" hello "\<close>, and at the page where
  the user has typed the text with the injected id: there \<^verbatim>\<open>removeTyping\<close> takes the
  link out of the user bubble and the typing indicator stays.
\<close>

theorem sendMessage_failure_frame_witness:
  "failed Rejected \<and> \<not> isProcessing typed_page
   \<and> trim (userInput_value typed_page) = js ''hello'' \<and> js ''hello'' \<noteq> []
   \<and> chatMessages (step (Response_chat Rejected) (step Call_sendMessage typed_page))
       = [Message User (js ''hello'') 0, Message Bot err_chat_my 0]
   \<and> currentState (step (Response_chat Rejected) (step Call_sendMessage typed_page))
       = currentState typed_page
   \<and> \<not> isProcessing injected_page
   \<and> trim (userInput_value injected_page) = injected_text \<and> injected_text \<noteq> []
   \<and> chatMessages (step (Response_chat Rejected) (step Call_sendMessage injected_page))
       = [Message User (formatMessage injected_text) 1, TypingIndicator,
          Message Bot err_chat_my 0]"
proof -
  have a: "\<not> isProcessing typed_page" by (simp add: typed_page_def start_def init_def)
  have b: "trim (userInput_value typed_page) = js ''hello''"
    by (simp add: typed_page_def start_def init_def trim_def is_white_space_def js_def)
  have c: "js ''hello'' \<noteq> []" by (simp add: js_def)
  have d: "failed Rejected" by simp
  have e: "chatMessages typed_page = []" "currentLang typed_page = Str (js ''my'')"
    "indicator_in (browser typed_page) = (\<lambda>h k. False)"
    by (simp_all add: typed_page_def start_def init_def example_browser_def)
  have f: "formatMessage (js ''hello'') = js ''hello''" by code_simp
  from sendMessage_failure_frame[OF d a b c, of typed_page] have
    1: "step (Response_chat Rejected) (step Call_sendMessage typed_page)
           = typed_page\<lparr> userInput_value := [], btnSend_disabled := False, focused := True,
                scrolls := scrolls typed_page + 3,
                chatMessages := chatMessages
                  (step (Response_chat Rejected) (step Call_sendMessage typed_page)),
                requests := requests typed_page @ [chat_request (js ''hello'') (currentLang typed_page)] \<rparr>"
    and 2: "chatMessages (step (Response_chat Rejected) (step Call_sendMessage typed_page))
           = (remove_indicator (indicator_in (browser typed_page))
                ^^ (case Rejected of Parsed data \<Rightarrow> 2 | _ \<Rightarrow> 1))
               (chatMessages typed_page @ [Message User (formatMessage (js ''hello'')) 0, TypingIndicator])
             @ [Message Bot (chat_error typed_page) 0]"
    by blast+
  have g: "currentState (step (Response_chat Rejected) (step Call_sendMessage typed_page))
       = currentState typed_page"
    by (subst 1) simp
  have a': "\<not> isProcessing injected_page"
    "trim (userInput_value injected_page) = injected_text"
    by (simp_all add: injected_page_def init_def trim_injected_text)
  have c': "injected_text \<noteq> []" by (simp add: injected_text_def js_def)
  have e': "chatMessages injected_page = []" "browser injected_page = link_browser"
    "currentLang injected_page = Str (js ''my'')"
    by (simp_all add: injected_page_def init_def)
  from sendMessage_failure_frame[OF d a' c', of injected_page]
  have 3: "chatMessages (step (Response_chat Rejected) (step Call_sendMessage injected_page))
           = (remove_indicator (indicator_in (browser injected_page))
                ^^ (case Rejected of Parsed data \<Rightarrow> 2 | _ \<Rightarrow> 1))
               (chatMessages injected_page
                  @ [Message User (formatMessage injected_text) 0, TypingIndicator])
             @ [Message Bot (chat_error injected_page) 0]"
    by blast
  from 3 e' indicator_in_injected_text
  have h: "chatMessages (step (Response_chat Rejected) (step Call_sendMessage injected_page))
       = [Message User (formatMessage injected_text) 1, TypingIndicator,
          Message Bot err_chat_my 0]"
    by (simp add: chat_error_def js_def)
  from 2 a b c d e f g have "chatMessages (step (Response_chat Rejected) (step Call_sendMessage typed_page))
       = [Message User (js ''hello'') 0, Message Bot err_chat_my 0]"
    by (simp add: chat_error_def js_def)
  with a b c d g a' c' h show ?thesis by simp
qed

text \<open>
  C9 as stated fails when the \<^verbatim>\<open>catch\<close> block is entered after the response has been
  shown: the state of \<^verbatim>\<open>late_reply\<close> has no string conversion, \<^verbatim>\<open>updateHint\<close> throws on it and
  the error bubble is appended, yet \<^verbatim>\<open>currentState\<close> has already taken the state of the
  response. The bubbles and the typing indicator are not the only effects either: the
  input field has been emptied.
\<close>

theorem sendMessage_late_throw_counterexample:
  "chat_catches (Parsed late_reply) (settle Chat (step Call_sendMessage typed_page))
   \<and> currentState typed_page = Str (js ''greeting'')
   \<and> currentState (step (Response_chat (Parsed late_reply)) (step Call_sendMessage typed_page))
       = Obj [(js ''toString'', Null)]
   \<and> messages (chatMessages
         (step (Response_chat (Parsed late_reply)) (step Call_sendMessage typed_page)))
       = [(User, formatMessage (js ''hello'')), (Bot, formatMessage (js ''ok'')),
          (Bot, formatMessage err_chat_my)]
   \<and> userInput_value typed_page = js '' hello ''
   \<and> userInput_value (step (Response_chat (Parsed late_reply)) (step Call_sendMessage typed_page))
       = []"
  by (simp add: chat_catches_def typed_page_def late_reply_def page_defs messages_simps)

subsection \<open>The script variables\<close>

text \<open>
  C2 (as amended). On every page the event loop can reach, \<^verbatim>\<open>currentState\<close> is the
  constant \<^verbatim>\<open>'greeting'\<close> (its initial value, and the value \<^verbatim>\<open>resetChat\<close> assigns) or the
  \<^verbatim>\<open>state\<close> field of a response from \<^verbatim>\<open>/api/init\<close> or \<^verbatim>\<open>/api/chat\<close> that has been delivered.
  No event computes the new value from the old one. A continuation of \<^verbatim>\<open>initChat\<close>, of
  \<^verbatim>\<open>resetChat\<close> or of \<^verbatim>\<open>sendMessage\<close> that can show its response sets \<^verbatim>\<open>currentState\<close> to the
  \<^verbatim>\<open>state\<close> field of that response, whatever it was before, and so does the event that
  delivers the response to a pending operation; a request that fails before its
  response is shown leaves it as it is; the continuation of \<^verbatim>\<open>toggleLanguage\<close> sets it to
  \<^verbatim>\<open>'greeting'\<close> when it reaches \<^verbatim>\<open>resetChat\<close> and leaves it otherwise; an event that delivers
  no response leaves it as it is.
\<close>

theorem currentState_mirrors_server:
  "currentState (run evs (init b)) \<in> set (Str (js ''greeting'') # served_states evs)
   \<and> (currentState (step e s) = currentState s
      \<or> currentState (step e s) = Str (js ''greeting'')
      \<or> state_field e = Some (currentState (step e s)))
   \<and> (renders data \<longrightarrow>
        currentState (initChat_resume (Parsed data) s) = prop_of data (js ''state'')
      \<and> currentState (resetChat_resume (Parsed data) s) = prop_of data (js ''state'')
      \<and> currentState (sendMessage_resume (Parsed data) s) = prop_of data (js ''state''))
   \<and> (renders data \<and> 0 < awaiting s Init \<longrightarrow>
        currentState (step (Response_init (Parsed data)) s) = prop_of data (js ''state''))
   \<and> (renders data \<and> 0 < awaiting s Reset \<longrightarrow>
        currentState (step (Response_reset (Parsed data)) s) = prop_of data (js ''state''))
   \<and> (renders data \<and> 0 < awaiting s Chat \<longrightarrow>
        currentState (step (Response_chat (Parsed data)) s) = prop_of data (js ''state''))
   \<and> (failed out \<longrightarrow>
        currentState (initChat_resume out s) = currentState s
      \<and> currentState (resetChat_resume out s) = currentState s
      \<and> currentState (sendMessage_resume out s) = currentState s)
   \<and> currentState (toggleLanguage_resume out s)
       = (if reaches_resetChat out s then Str (js ''greeting'') else currentState s)
   \<and> (delivered e = None \<longrightarrow> currentState (step e s) = currentState s)"
proof -
  have 1: "renders data \<Longrightarrow>
        currentState (initChat_resume (Parsed data) s) = prop_of data (js ''state'')
      \<and> currentState (resetChat_resume (Parsed data) s) = prop_of data (js ''state'')
      \<and> currentState (sendMessage_resume (Parsed data) s) = prop_of data (js ''state'')"
    using initChat_resume_variables[of _ s data] resetChat_resume_variables[of _ s data]
      sendMessage_resume_variables[of _ s data]
    by simp
  have 2: "renders data \<and> 0 < awaiting s Init \<Longrightarrow>
        currentState (step (Response_init (Parsed data)) s) = prop_of data (js ''state'')"
    using initChat_resume_variables[of _ "settle Init s" data] by simp
  have 3: "renders data \<and> 0 < awaiting s Reset \<Longrightarrow>
        currentState (step (Response_reset (Parsed data)) s) = prop_of data (js ''state'')"
    using resetChat_resume_variables[of _ "settle Reset s" data] by simp
  have 4: "renders data \<and> 0 < awaiting s Chat \<Longrightarrow>
        currentState (step (Response_chat (Parsed data)) s) = prop_of data (js ''state'')"
    using sendMessage_resume_variables[of _ "settle Chat s" data] by simp
  have 5: "failed out \<Longrightarrow>
        currentState (initChat_resume out s) = currentState s
      \<and> currentState (resetChat_resume out s) = currentState s
      \<and> currentState (sendMessage_resume out s) = currentState s"
    using initChat_resume_variables[of out s] resetChat_resume_variables[of out s]
      sendMessage_resume_variables[of out s]
    by simp
  from 1 2 3 4 5 run_currentState[of evs b] step_variables[of e s]
    toggleLanguage_resume_currentState[of out s] step_undelivered[of e s]
  show ?thesis by blast
qed

text \<open>
  The theorem at the page that waits for \<^verbatim>\<open>/api/init\<close>: the server answers with the state
  \<^verbatim>\<open>ask_dob\<close>, or the request is rejected.
\<close>

theorem currentState_mirrors_server_witness:
  "renders dob_reply
   \<and> 0 < awaiting loading_page Init
   \<and> currentState loading_page = Str (js ''greeting'')
   \<and> currentState (step (Response_init (Parsed dob_reply)) loading_page) = Str (js ''ask_dob'')
   \<and> prop_of dob_reply (js ''state'') = Str (js ''ask_dob'')
   \<and> failed Rejected
   \<and> currentState (initChat_resume Rejected loading_page) = Str (js ''greeting'')"
proof -
  have a: "renders dob_reply" by (simp add: renders_def dob_reply_def js_def)
  have b: "0 < awaiting loading_page Init" "currentState loading_page = Str (js ''greeting'')"
    by (simp_all add: loading_page_def page_defs)
  have c: "prop_of dob_reply (js ''state'') = Str (js ''ask_dob'')"
    by (simp add: prop_of_def dob_reply_def js_def)
  have d: "failed Rejected" by simp
  from currentState_mirrors_server[of _ _ _ loading_page dob_reply Rejected] a b d
  have "currentState (step (Response_init (Parsed dob_reply)) loading_page)
      = prop_of dob_reply (js ''state'')"
    "currentState (initChat_resume Rejected loading_page) = currentState loading_page"
    by blast+
  with a b c d show ?thesis by simp
qed

text \<open>
  C2 as stated fails after a language switch: \<^verbatim>\<open>resetChat\<close> sets \<^verbatim>\<open>currentState\<close> to
  \<^verbatim>\<open>'greeting'\<close>, although the only state the server has supplied is \<^verbatim>\<open>ask_dob\<close>.
\<close>

theorem currentState_greeting_counterexample:
  "currentState (run reset_tour start) = Str (js ''greeting'')
   \<and> served_states reset_tour = [Str (js ''ask_dob'')]
   \<and> Str (js ''greeting'') \<notin> set (served_states reset_tour)"
proof -
  have a: "currentState (run reset_tour start) = Str (js ''greeting'')"
    by (simp add: reset_tour_def dob_reply_def page_defs)
  have b: "served_states reset_tour = [Str (js ''ask_dob'')]"
    by (simp add: reset_tour_def dob_reply_def served_states_def List.map_filter_def
        state_field_def js_def)
  have c: "Str (js ''greeting'') \<noteq> Str (js ''ask_dob'')" by (simp add: js_def)
  from a b c show ?thesis by simp
qed

text \<open>
  C3 (as amended). \<^verbatim>\<open>initChat\<close> and the callback of \<^verbatim>\<open>resetChat\<close> take \<^verbatim>\<open>currentLang\<close> and
  \<^verbatim>\<open>currentHints\<close> from the fields \<^verbatim>\<open>lang\<close> and \<^verbatim>\<open>hints\<close> of a response they can render
  when the field is truthy and keep the previous value otherwise, in particular when
  the field is absent; \<^verbatim>\<open>sendMessage\<close> does so for \<^verbatim>\<open>lang\<close> and never changes
  \<^verbatim>\<open>currentHints\<close>; a failed request changes neither. \<^verbatim>\<open>toggleLanguage\<close> replaces
  \<^verbatim>\<open>currentHints\<close> by the \<^verbatim>\<open>hints\<close> of the response when truthy and by an empty table
  otherwise, takes a truthy \<^verbatim>\<open>lang\<close> as the new \<^verbatim>\<open>currentLang\<close>, and changes nothing when
  the request fails or the body is \<^verbatim>\<open>null\<close>.
\<close>

theorem optional_fields:
  "(renders data \<longrightarrow>
      currentLang (initChat_resume (Parsed data) s)
        = optional_field (js ''lang'') data (currentLang s)
    \<and> currentHints (initChat_resume (Parsed data) s)
        = optional_field (js ''hints'') data (currentHints s)
    \<and> currentLang (resetChat_resume (Parsed data) s)
        = optional_field (js ''lang'') data (currentLang s)
    \<and> currentHints (resetChat_resume (Parsed data) s)
        = optional_field (js ''hints'') data (currentHints s)
    \<and> currentLang (sendMessage_resume (Parsed data) s)
        = optional_field (js ''lang'') data (currentLang s))
   \<and> currentHints (sendMessage_resume out s) = currentHints s
   \<and> (failed out \<longrightarrow>
      currentLang (initChat_resume out s) = currentLang s
    \<and> currentHints (initChat_resume out s) = currentHints s
    \<and> currentLang (resetChat_resume out s) = currentLang s
    \<and> currentHints (resetChat_resume out s) = currentHints s
    \<and> currentLang (sendMessage_resume out s) = currentLang s)
   \<and> (data \<noteq> Null \<and> data \<noteq> Undefined \<longrightarrow>
      currentHints (toggleLanguage_resume (Parsed data) s)
        = (if truthy (prop_of data (js ''hints'')) then prop_of data (js ''hints'') else Obj [])
    \<and> (truthy (prop_of data (js ''lang'')) \<longrightarrow>
          currentLang (toggleLanguage_resume (Parsed data) s) = prop_of data (js ''lang'')))
   \<and> (out = Rejected \<or> out = NotJson \<or> out = Parsed Null \<longrightarrow> toggleLanguage_resume out s = s)
   \<and> (prop_of data k = Undefined \<longrightarrow> optional_field k data old = old)"
proof -
  have 1: "renders data \<Longrightarrow>
      currentLang (initChat_resume (Parsed data) s)
        = optional_field (js ''lang'') data (currentLang s)
    \<and> currentHints (initChat_resume (Parsed data) s)
        = optional_field (js ''hints'') data (currentHints s)
    \<and> currentLang (resetChat_resume (Parsed data) s)
        = optional_field (js ''lang'') data (currentLang s)
    \<and> currentHints (resetChat_resume (Parsed data) s)
        = optional_field (js ''hints'') data (currentHints s)
    \<and> currentLang (sendMessage_resume (Parsed data) s)
        = optional_field (js ''lang'') data (currentLang s)"
    using initChat_resume_variables[of _ s data] resetChat_resume_variables[of _ s data]
      sendMessage_resume_variables[of _ s data]
    by simp
  have 2: "currentHints (sendMessage_resume out s) = currentHints s"
    by (simp add: sendMessage_resume_frame)
  have 3: "failed out \<Longrightarrow>
      currentLang (initChat_resume out s) = currentLang s
    \<and> currentHints (initChat_resume out s) = currentHints s
    \<and> currentLang (resetChat_resume out s) = currentLang s
    \<and> currentHints (resetChat_resume out s) = currentHints s
    \<and> currentLang (sendMessage_resume out s) = currentLang s"
    using initChat_resume_variables[of out s] resetChat_resume_variables[of out s]
      sendMessage_resume_variables[of out s]
    by simp
  have 4: "data \<noteq> Null \<and> data \<noteq> Undefined \<Longrightarrow>
      currentHints (toggleLanguage_resume (Parsed data) s)
        = (if truthy (prop_of data (js ''hints'')) then prop_of data (js ''hints'') else Obj [])
    \<and> (truthy (prop_of data (js ''lang'')) \<longrightarrow>
          currentLang (toggleLanguage_resume (Parsed data) s) = prop_of data (js ''lang''))"
    using toggleLanguage_resume_cases[of "Parsed data" s] by auto
  have 5: "out = Rejected \<or> out = NotJson \<or> out = Parsed Null \<Longrightarrow> toggleLanguage_resume out s = s"
    by (auto simp: toggleLanguage_resume_def)
  have 6: "prop_of data k = Undefined \<Longrightarrow> optional_field k data old = old"
    by (simp add: optional_field_def)
  from 1 2 3 4 5 6 show ?thesis by blast
qed

text \<open>
  The theorem at a response to \<^verbatim>\<open>/api/init\<close> that carries \<^verbatim>\<open>lang\<close> and no \<^verbatim>\<open>hints\<close>.
\<close>

theorem optional_fields_witness:
  "renders english_reply
   \<and> currentLang loading_page = Str (js ''my'')
   \<and> currentLang (initChat_resume (Parsed english_reply) loading_page) = Str (js ''en'')
   \<and> currentHints (initChat_resume (Parsed english_reply) loading_page) = currentHints loading_page"
proof -
  have a: "renders english_reply" by (simp add: renders_def english_reply_def js_def)
  have b: "optional_field (js ''lang'') english_reply (currentLang loading_page) = Str (js ''en'')"
    "optional_field (js ''hints'') english_reply (currentHints loading_page) = currentHints loading_page"
    by (simp_all add: optional_field_def prop_of_def english_reply_def js_def)
  have c: "currentLang loading_page = Str (js ''my'')"
    by (simp add: loading_page_def page_defs)
  from optional_fields[of english_reply loading_page] a
  have "currentLang (initChat_resume (Parsed english_reply) loading_page)
        = optional_field (js ''lang'') english_reply (currentLang loading_page)
    \<and> currentHints (initChat_resume (Parsed english_reply) loading_page)
        = optional_field (js ''hints'') english_reply (currentHints loading_page)"
    by blast
  with a b c show ?thesis by simp
qed

text \<open>
  C3 as stated fails for \<^verbatim>\<open>toggleLanguage\<close>: the response \<^verbatim>\<open>{}\<close> has neither field, yet
  \<^verbatim>\<open>currentLang\<close> becomes \<^verbatim>\<open>undefined\<close> and the hints received before are replaced by an
  empty table.
\<close>

theorem toggleLanguage_overwrites_counterexample:
  "get (Obj []) (js ''lang'') = Inr Undefined
   \<and> get (Obj []) (js ''hints'') = Inr Undefined
   \<and> currentLang hinted_page = Str (js ''my'')
   \<and> currentHints hinted_page = Obj [(js ''greeting'', Str (js ''name''))]
   \<and> currentLang (step (Response_set_lang (Parsed (Obj []))) hinted_page) = Undefined
   \<and> currentHints (step (Response_set_lang (Parsed (Obj []))) hinted_page) = Obj []"
  by (simp add: hinted_page_def page_defs)

text \<open>
  C7 (as amended). Besides the document, the script has four mutable variables.
  \<^verbatim>\<open>isProcessing\<close> changes only in \<^verbatim>\<open>sendMessage\<close> and its continuation. \<^verbatim>\<open>currentState\<close>,
  \<^verbatim>\<open>currentLang\<close> and \<^verbatim>\<open>currentHints\<close> change only while a parsed server response is
  processed, and then to the \<^verbatim>\<open>state\<close>, \<^verbatim>\<open>lang\<close> and \<^verbatim>\<open>hints\<close> field of that response,
  except that the response to \<^verbatim>\<open>/api/set_lang\<close> resets \<^verbatim>\<open>currentState\<close> to \<^verbatim>\<open>'greeting'\<close>
  and may reset \<^verbatim>\<open>currentHints\<close> to an empty table.
\<close>

theorem script_variables_sources:
  "(currentState (step e s) = currentState s
      \<or> (\<exists>data. delivered e = Some (SetLang, data)) \<and> currentState (step e s) = Str (js ''greeting'')
      \<or> state_field e = Some (currentState (step e s)))
   \<and> (currentLang (step e s) = currentLang s
      \<or> field_of (js ''lang'') e = Some (currentLang (step e s)))
   \<and> (currentHints (step e s) = currentHints s
      \<or> (\<exists>data. delivered e = Some (SetLang, data)) \<and> currentHints (step e s) = Obj []
      \<or> field_of (js ''hints'') e = Some (currentHints (step e s)))
   \<and> (delivered e = None \<longrightarrow>
        currentState (step e s) = currentState s \<and> currentLang (step e s) = currentLang s
        \<and> currentHints (step e s) = currentHints s)
   \<and> (isProcessing (step e s) = isProcessing s
      \<or> e = Call_sendMessage \<or> (\<exists>out. e = Response_chat out))"
  using step_variables[of e s] step_undelivered[of e s] step_isProcessing[of e s]
  by blast

text \<open>
  The theorem at a response that carries a language, and at a call of \<^verbatim>\<open>sendMessage\<close>.
\<close>

theorem script_variables_sources_witness:
  "delivered (Response_init (Parsed english_reply)) = Some (Init, english_reply)
   \<and> field_of (js ''lang'') (Response_init (Parsed english_reply)) = Some (Str (js ''en''))
   \<and> currentLang (step (Response_init (Parsed english_reply)) loading_page) = Str (js ''en'')
   \<and> delivered Call_sendMessage = None
   \<and> currentLang (step Call_sendMessage typed_page) = currentLang typed_page"
proof -
  have a: "field_of (js ''lang'') (Response_init (Parsed english_reply)) = Some (Str (js ''en''))"
    by (simp add: field_of_def english_reply_def js_def)
  have b: "currentLang (step (Response_init (Parsed english_reply)) loading_page) = Str (js ''en'')"
    by (simp add: loading_page_def english_reply_def page_defs)
  have c: "delivered Call_sendMessage = None" by simp
  from script_variables_sources[of Call_sendMessage typed_page] c
  have "currentLang (step Call_sendMessage typed_page) = currentLang typed_page" by blast
  with a b c show ?thesis by simp
qed

text \<open>
  C7 as stated fails at a call of \<^verbatim>\<open>sendMessage\<close>: it sets \<^verbatim>\<open>isProcessing\<close> and extends
  the chat while the three variables stay as they are.
\<close>

theorem isProcessing_mutable_counterexample:
  "\<not> isProcessing typed_page
   \<and> isProcessing (step Call_sendMessage typed_page)
   \<and> chatMessages (step Call_sendMessage typed_page) \<noteq> chatMessages typed_page
   \<and> currentState (step Call_sendMessage typed_page) = currentState typed_page
   \<and> currentLang (step Call_sendMessage typed_page) = currentLang typed_page
   \<and> currentHints (step Call_sendMessage typed_page) = currentHints typed_page"
  by (simp add: typed_page_def page_defs)

end
